theory Spec2Isabelle
  imports Complex_Main "HOL-Library.AList"
begin

section \<open>Data model\<close>

text \<open>
  Modelled from the spec: the \<open>Status\<close> enumeration is declared in \<open>_check_log.py\<close>,
  which is not among the sources; the data model gives it as the closed set
  TBD, RUNNING, OK, WARNING, ERROR, OK_1E, OK_2E.
\<close>

datatype Status = TBD | RUNNING | OK | WARNING | ERROR | OK_1E | OK_2E

type_synonym path = string

text \<open>
  A cell of the matrix as \<open>pandas.read_csv\<close> delivers it: an empty field (or one of
  the markers of a missing value) is read as NaN, a field of a numeric column as a
  number, any other field as a string.  A row is the association of column names with
  cells, in column order.
\<close>

datatype cell = Blank | Number rat | Text string

type_synonym row = "(string \<times> cell) list"

text \<open>
  Modelled from the spec: the \<open>Task\<close> class is declared in \<open>_subtasks_setup.py\<close>,
  which is not among the sources; a task is a name and an ordered list of subtask
  partition keys.  (The field of the keys is called \<open>keys_of\<close> here, because the source
  has a function \<open>subtask_keys\<close> of its own.)
\<close>

record Task =
  name :: string
  keys_of :: "string list"

text \<open>
  The manifest, as the dictionary parsed from the info file, with the two entries the
  status pass reads.
\<close>

record info =
  InfoKey_group_ids :: "string list"
  InfoKey_work_path :: path

text \<open>
  Python exceptions as values.  An assertion failure carries its message: the two
  assertions of \<open>main\<close> name a path, respectively a row (with its index) and a task
  name; the assertion of \<open>parse_subtask_status\<close> has no message.
\<close>

datatype message = NoMessage | PathNotFound path | RowMismatch nat row string

datatype error =
  AssertionError message | TypeError | ValueError | IndexError | KeyError
  | FileNotFoundError path

text \<open>
  The world the status pass runs in.  Everything that is persisted is looked up under
  its absolute path: whether a path exists, the parsed content of the info file, of
  the matrix file and of the task-list file, the entries of a directory (none when it
  is not a directory), and the status the external log parser assigns to the log
  file at a path.  \<open>stdout\<close> is the list of the lines printed so far.
\<close>

record world =
  cwd :: path
  path_exists :: "path \<Rightarrow> bool"
  info_files :: "path \<rightharpoonup> info"
  csv_files :: "path \<rightharpoonup> row list"
  task_files :: "path \<rightharpoonup> Task list"
  listdir :: "path \<Rightarrow> string list"
  log_status :: "path \<Rightarrow> Status"
  stdout :: "string list"

text \<open>
  The names imported from \<open>_check_log.py\<close> and \<open>_subtasks_setup.py\<close> whose values are
  not among the sources are parameters of the model.
\<close>

record externals =
  STATUS_WIDTH :: nat
  INFO_FILE :: string
  TableKey_task :: string
  colored_status_string :: "Status \<Rightarrow> string"

section \<open>Paths\<close>

text \<open>\<open>sep.join(xs)\<close>.\<close>

fun join :: "string \<Rightarrow> string list \<Rightarrow> string" where
  "join sep [] = []"
| "join sep [x] = x"
| "join sep (x # y # ys) = x @ sep @ join sep (y # ys)"

text \<open>
  A path of \<open>pathlib\<close> on a POSIX system is a root and a list of segments: the root is
  \<open>/\<close> for a string that starts with a slash (\<open>//\<close> when it starts with exactly two),
  the segments are the pieces between the slashes, without the empty ones and
  without \<open>.\<close>; so doubled and trailing slashes and \<open>.\<close> segments are dropped, and \<open>..\<close>
  is kept.  The string of a path is the root followed by the segments joined
  with slashes, and \<open>.\<close> for the path with no root and no segment.
\<close>

fun split_on :: "char \<Rightarrow> string \<Rightarrow> string list" where
  "split_on c [] = [[]]"
| "split_on c (x # xs) =
     (if x = c then [] # split_on c xs
      else (case split_on c xs of [] \<Rightarrow> [[x]] | s # ss \<Rightarrow> (x # s) # ss))"

definition path_root :: "path \<Rightarrow> string" where
  "path_root p =
     (if take 2 p = ''//'' \<and> take 3 p \<noteq> ''///'' then ''//''
      else if take 1 p = ''/'' then ''/''
      else [])"

definition path_parts :: "path \<Rightarrow> string list" where
  "path_parts p = filter (\<lambda>seg. seg \<noteq> [] \<and> seg \<noteq> ''.'') (split_on CHR ''/'' p)"

definition path_str :: "string \<Rightarrow> string list \<Rightarrow> path" where
  "path_str rt parts = (if rt = [] \<and> parts = [] then ''.'' else rt @ join ''/'' parts)"

text \<open>\<open>str(Path(p))\<close>.\<close>

definition py_path :: "path \<Rightarrow> path" where
  "py_path p = path_str (path_root p) (path_parts p)"

definition is_absolute :: "path \<Rightarrow> bool" where
  "is_absolute p = (case p of [] \<Rightarrow> False | ch # _ \<Rightarrow> ch = CHR ''/'')"

text \<open>\<open>str(Path(a) / b)\<close>: an absolute \<open>b\<close> replaces \<open>a\<close>, a relative one adds its segments.\<close>

definition joinpath :: "path \<Rightarrow> path \<Rightarrow> path" where
  "joinpath a b =
     (if is_absolute b then py_path b
      else path_str (path_root a) (path_parts a @ path_parts b))"

text \<open>
  The operating system resolves a relative path against the working directory; the
  world is looked up under the normalised absolute path.
\<close>

definition resolve :: "world \<Rightarrow> path \<Rightarrow> path" where
  "resolve w p = joinpath (cwd w) p"

text \<open>The file-name pattern \<open>out*.log\<close>.\<close>

definition matches_out_log :: "string \<Rightarrow> bool" where
  "matches_out_log n \<longleftrightarrow>
     7 \<le> length n \<and> take 3 n = ''out'' \<and> drop (length n - 4) n = ''.log''"

text \<open>
  \<open>Path(path).glob("out*.log")\<close>, as strings: the matching entries of the directory,
  each joined to the path, which \<open>Path\<close> has normalised; nothing when the directory does
  not exist.
\<close>

definition glob_out_log :: "world \<Rightarrow> path \<Rightarrow> path list" where
  "glob_out_log w p = map (joinpath p) (filter matches_out_log (listdir w (resolve w p)))"

text \<open>
  Modelled from the spec: \<open>parse_log_status\<close> is the external log parser, which maps
  the log file at a path to exactly one status.
\<close>

definition parse_log_status :: "world \<Rightarrow> path \<Rightarrow> Status" where
  "parse_log_status w p = log_status w (resolve w p)"

section \<open>The status aggregator\<close>

text \<open>
  \<open>dict(pairs)\<close>: a later pair with a key already present replaces its value in place,
  a new key is appended.
\<close>

definition dict :: "('k \<times> 'v) list \<Rightarrow> ('k \<times> 'v) list" where
  "dict ps = fold (\<lambda>(k, v) d. AList.update k v d) ps []"

definition log_paths_with_statuses :: "world \<Rightarrow> path \<Rightarrow> Status list \<Rightarrow> (path \<times> Status) list" where
  "log_paths_with_statuses w p exclude_stats =
     (let log_paths = glob_out_log w p;
          log_stats = map (parse_log_status w) log_paths;
          log_dct = dict (zip log_paths log_stats)
      in filter (\<lambda>(k, v). v \<notin> set exclude_stats) log_dct)"

text \<open>
  The set of the statuses is kept as the list of the distinct statuses; only its size,
  membership in it and its extension are used.  The error fraction is an exact
  rational: the source compares the quotient of two small integers, rounded to a
  double, with the double nearest to 0.2; the comparison is only consulted when the
  count is 1 or 2, where rounding (which is monotone, and maps 1/5 and 2/10 to that
  same double) gives the same answer as the exact comparison with 1/5.
\<close>

definition parse_subtask_status :: "world \<Rightarrow> path \<Rightarrow> rat \<Rightarrow> error + Status" where
  "parse_subtask_status w p small_thresh =
     (let log_dct = log_paths_with_statuses w p [] in
      if log_dct = [] then Inr TBD
      else
        let log_stats = map snd log_dct;
            log_stat_set = remdups log_stats
        in
          if length log_stat_set = 1 then Inr (hd log_stat_set)
          else if RUNNING \<in> set log_stat_set then Inr RUNNING
          else
            let error_count = count_list log_stats ERROR;
                error_frac = (of_nat error_count :: rat) / of_nat (length log_stats)
            in
              if error_count = 1 \<and> error_frac < small_thresh then Inr OK_1E
              else if error_count = 2 \<and> error_frac < small_thresh then Inr OK_2E
              else if ERROR \<in> set log_stat_set then Inr ERROR
              else if set log_stat_set = {OK, WARNING} then Inr WARNING
              else Inl (AssertionError NoMessage))"

text \<open>The default of the parameter \<open>small_thresh\<close>.\<close>

definition small_thresh_default :: rat where
  "small_thresh_default = 2 / 10"

section \<open>Printing and exceptions\<close>

text \<open>
  A computation takes the world and returns the world with either the exception
  it raised or its result.  The lines printed before an exception stay printed.
\<close>

type_synonym 'a io = "world \<Rightarrow> (error + 'a) \<times> world"

definition io_return :: "'a \<Rightarrow> 'a io" where
  "io_return x = (\<lambda>w. (Inr x, w))"

definition io_raise :: "error \<Rightarrow> 'a io" where
  "io_raise e = (\<lambda>w. (Inl e, w))"

definition io_bind :: "'a io \<Rightarrow> ('a \<Rightarrow> 'b io) \<Rightarrow> 'b io" where
  "io_bind m f = (\<lambda>w. case m w of (Inl e, w') \<Rightarrow> (Inl e, w') | (Inr x, w') \<Rightarrow> f x w')"

text \<open>A computation that only reads the world.\<close>

definition io_read :: "(world \<Rightarrow> error + 'a) \<Rightarrow> 'a io" where
  "io_read f = (\<lambda>w. (f w, w))"

definition print_line :: "string \<Rightarrow> unit io" where
  "print_line s = (\<lambda>w. (Inr (), w\<lparr>stdout := stdout w @ [s]\<rparr>))"

fun print_lines :: "string list \<Rightarrow> unit io" where
  "print_lines [] = io_return ()"
| "print_lines (l # ls) = io_bind (print_line l) (\<lambda>_. print_lines ls)"

text \<open>Evaluating a function on a list from left to right, up to the first exception.\<close>

fun map_result :: "('a \<Rightarrow> error + 'b) \<Rightarrow> 'a list \<Rightarrow> error + 'b list" where
  "map_result f [] = Inr []"
| "map_result f (x # xs) =
     (case f x of
        Inl e \<Rightarrow> Inl e
      | Inr y \<Rightarrow> (case map_result f xs of Inl e \<Rightarrow> Inl e | Inr ys \<Rightarrow> Inr (y # ys)))"

section \<open>String formatting\<close>

text \<open>The format specifications \<open>>w\<close>, \<open><w\<close> and \<open>^w\<close> on strings.\<close>

definition fmt_right :: "nat \<Rightarrow> string \<Rightarrow> string" where
  "fmt_right wd s = replicate (wd - length s) CHR '' '' @ s"

definition fmt_left :: "nat \<Rightarrow> string \<Rightarrow> string" where
  "fmt_left wd s = s @ replicate (wd - length s) CHR '' ''"

definition fmt_center :: "nat \<Rightarrow> string \<Rightarrow> string" where
  "fmt_center wd s =
     (let pad = wd - length s; lpad = pad div 2
      in replicate lpad CHR '' '' @ s @ replicate (pad - lpad) CHR '' '')"

text \<open>\<open>max\<close> of a sequence of lengths; it raises on the empty sequence.\<close>

fun py_max :: "nat list \<Rightarrow> error + nat" where
  "py_max [] = Inl ValueError"
| "py_max (x # xs) = Inr (fold max xs x)"

section \<open>The table of a task group\<close>

definition task_column_width :: "Task list \<Rightarrow> error + nat" where
  "task_column_width tasks = py_max (map (\<lambda>task. length (name task)) tasks)"

text \<open>\<open>more_itertools.unique_everseen\<close>: the first occurrence of each element, in order.\<close>

fun unique_everseen :: "'a list \<Rightarrow> 'a list \<Rightarrow> 'a list" where
  "unique_everseen seen [] = []"
| "unique_everseen seen (x # xs) =
     (if x \<in> set seen then unique_everseen seen xs else x # unique_everseen (x # seen) xs)"

definition subtask_keys :: "Task list \<Rightarrow> string list" where
  "subtask_keys tasks = unique_everseen [] (concat (map keys_of tasks))"

text \<open>
  \<open>more_itertools.chunked(vals, n)\<close> for \<open>n \<ge> 0\<close>: it takes \<open>n\<close> elements at a time and
  stops at the first empty take, so that \<open>n = 0\<close> gives no chunk at all.
\<close>

function chunked :: "'a list \<Rightarrow> nat \<Rightarrow> 'a list list" where
  "chunked xs n = (if n = 0 \<or> xs = [] then [] else take n xs # chunked (drop n xs) n)"
  by pat_completeness auto
termination
  by (relation "measure (\<lambda>(xs, n). length xs)") auto

declare chunked.simps [simp del]

definition print_long_row_guide :: "externals \<Rightarrow> nat \<Rightarrow> nat \<Rightarrow> int \<Rightarrow> string \<Rightarrow> unit io" where
  "print_long_row_guide c label_width nvals wrap ch =
     (if int nvals > wrap then
        let total_width = int label_width + (int (STATUS_WIDTH c) + 1) * wrap
        in print_line (concat (replicate (nat total_width) ch))
      else io_return ())"

text \<open>The loop of \<open>print_task_row\<close>: the label is dropped after the first chunk.\<close>

fun print_chunks :: "externals \<Rightarrow> string \<Rightarrow> string list list \<Rightarrow> nat \<Rightarrow> unit io" where
  "print_chunks c label [] label_width = io_return ()"
| "print_chunks c label (chunk_vals # rest) label_width =
     io_bind
       (print_line (fmt_right label_width label
                      @ join '' '' (map (fmt_center (STATUS_WIDTH c)) chunk_vals)))
       (\<lambda>_. print_chunks c [] rest label_width)"

text \<open>A negative chunk size makes the first step of the iteration raise.\<close>

definition print_task_row :: "externals \<Rightarrow> string \<Rightarrow> string list \<Rightarrow> nat \<Rightarrow> int \<Rightarrow> unit io" where
  "print_task_row c label vals label_width wrap =
     (if wrap < 0 then io_raise ValueError
      else io_bind (print_chunks c label (chunked vals (nat wrap)) label_width)
             (\<lambda>_. print_long_row_guide c label_width (length vals) wrap ''-''))"

section \<open>The status pass\<close>

text \<open>A record of the closing listing: task name, partition key, log path, status.\<close>

type_synonym log_record = "string \<times> string \<times> path \<times> Status"

text \<open>
  What \<open>pathlib\<close> accepts as a path segment: a string.  \<open>row.get\<close> gives \<open>None\<close> for
  a column the row does not have, NaN for an empty field and a number for a numeric
  one; all of them raise \<open>TypeError\<close>, in \<open>Path(work_path) / p\<close> as in \<open>Path(p)\<close>.
\<close>

definition fspath :: "cell option \<Rightarrow> error + path" where
  "fspath v = (case v of Some (Text s) \<Rightarrow> Inr s | _ \<Rightarrow> Inl TypeError)"

definition path_div :: "path \<Rightarrow> cell option \<Rightarrow> error + path" where
  "path_div a v = (case fspath v of Inl e \<Rightarrow> Inl e | Inr s \<Rightarrow> Inr (joinpath a s))"

definition read_info :: "world \<Rightarrow> path \<Rightarrow> error + info" where
  "read_info w p =
     (case info_files w (resolve w p) of None \<Rightarrow> Inl (FileNotFoundError p) | Some d \<Rightarrow> Inr d)"

definition read_csv :: "world \<Rightarrow> path \<Rightarrow> error + row list" where
  "read_csv w p =
     (case csv_files w (resolve w p) of None \<Rightarrow> Inl (FileNotFoundError p) | Some df \<Rightarrow> Inr df)"

text \<open>
  Modelled from the spec: \<open>read_task_list\<close> is declared in \<open>_subtasks_setup.py\<close>, which
  is not among the sources; it reads the ordered task list of a group.
\<close>

definition read_task_list :: "world \<Rightarrow> path \<Rightarrow> error + Task list" where
  "read_task_list w p =
     (case task_files w (resolve w p) of None \<Rightarrow> Inl (FileNotFoundError p) | Some ts \<Rightarrow> Inr ts)"

text \<open>
  The records one cell adds to the listing: the logs found at the path of the cell
  as the matrix gives it, those with status OK left out.
\<close>

definition cell_records :: "world \<Rightarrow> string \<Rightarrow> string \<times> cell option \<Rightarrow> error + log_record list" where
  "cell_records w task_name kp =
     (case kp of (skey, spath) \<Rightarrow>
        (case fspath spath of
           Inl e \<Rightarrow> Inl e
         | Inr sp \<Rightarrow>
             Inr (map (\<lambda>(p, s). (task_name, skey, p, s)) (log_paths_with_statuses w sp [OK]))))"

text \<open>The body of the loop over the rows of the matrix (lines 52 to 68).\<close>

definition main_row ::
  "externals \<Rightarrow> path \<Rightarrow> Task list \<Rightarrow> string list \<Rightarrow> nat \<Rightarrow> int \<Rightarrow> nat \<times> row
     \<Rightarrow> log_record list \<Rightarrow> log_record list io" where
  "main_row c work_path tasks skeys twidth wrap kr non_okay_log_records =
     (case kr of (task_key, row) \<Rightarrow>
        if length tasks \<le> task_key then io_raise IndexError
        else
          let task = tasks ! task_key in
          (case map_of row (TableKey_task c) of
             None \<Rightarrow> io_raise KeyError
           | Some v \<Rightarrow>
               if v \<noteq> Text (name task)
               then io_raise (AssertionError (RowMismatch task_key row (name task)))
               else
                 let subtask_paths = map (map_of row) skeys in
                 io_bind (io_read (\<lambda>w. map_result (path_div work_path) subtask_paths))
                   (\<lambda>subtask_abs_paths.
                 io_bind (io_read (\<lambda>w. map_result
                            (\<lambda>p. parse_subtask_status w p small_thresh_default)
                            subtask_abs_paths))
                   (\<lambda>stats.
                 io_bind (print_task_row c (name task)
                            (map (colored_status_string c) stats) twidth wrap)
                   (\<lambda>_.
                 io_bind (io_read (\<lambda>w. map_result (cell_records w (name task))
                            (zip skeys subtask_paths)))
                   (\<lambda>new. io_return (non_okay_log_records @ concat new)))))))"

fun main_rows ::
  "externals \<Rightarrow> path \<Rightarrow> Task list \<Rightarrow> string list \<Rightarrow> nat \<Rightarrow> int \<Rightarrow> (nat \<times> row) list
     \<Rightarrow> log_record list \<Rightarrow> log_record list io" where
  "main_rows c work_path tasks skeys twidth wrap [] recs = io_return recs"
| "main_rows c work_path tasks skeys twidth wrap (kr # rest) recs =
     io_bind (main_row c work_path tasks skeys twidth wrap kr recs)
       (\<lambda>recs'. main_rows c work_path tasks skeys twidth wrap rest recs')"

text \<open>
  The body of the loop over the groups (lines 44 to 69).  \<open>df.iterrows()\<close> numbers
  the rows of the matrix from 0.
\<close>

definition main_group ::
  "externals \<Rightarrow> path \<Rightarrow> path \<Rightarrow> int \<Rightarrow> string \<Rightarrow> log_record list \<Rightarrow> log_record list io" where
  "main_group c p work_path wrap group_id recs =
     io_bind (io_read (\<lambda>w. read_csv w (joinpath p (group_id @ ''.csv'')))) (\<lambda>df.
     io_bind (io_read (\<lambda>w. read_task_list w (joinpath p (group_id @ ''.yaml'')))) (\<lambda>tasks.
     io_bind (io_read (\<lambda>w. task_column_width tasks)) (\<lambda>twidth.
     let skeys = subtask_keys tasks in
     io_bind (print_long_row_guide c twidth (length skeys) wrap ''#'') (\<lambda>_.
     io_bind (print_task_row c (TableKey_task c) skeys twidth wrap) (\<lambda>_.
     io_bind (main_rows c work_path tasks skeys twidth wrap (zip [0..<length df] df) recs)
       (\<lambda>recs'.
     io_bind (print_line []) (\<lambda>_. io_return recs')))))))"

fun main_groups ::
  "externals \<Rightarrow> path \<Rightarrow> path \<Rightarrow> int \<Rightarrow> string list \<Rightarrow> log_record list \<Rightarrow> log_record list io" where
  "main_groups c p work_path wrap [] recs = io_return recs"
| "main_groups c p work_path wrap (group_id # rest) recs =
     io_bind (main_group c p work_path wrap group_id recs)
       (\<lambda>recs'. main_groups c p work_path wrap rest recs')"

text \<open>The closing listing (lines 71 to 79).\<close>

definition format_record :: "externals \<Rightarrow> nat \<Rightarrow> nat \<Rightarrow> nat \<Rightarrow> log_record \<Rightarrow> string" where
  "format_record c twidth swidth pwidth r =
     (case r of (task_name, skey, log_path, stat) \<Rightarrow>
        fmt_left twidth task_name @ '' '' @ fmt_left swidth skey @ '' ''
          @ fmt_left pwidth log_path @ '' '' @ colored_status_string c stat)"

definition main_listing :: "externals \<Rightarrow> path \<Rightarrow> log_record list \<Rightarrow> unit io" where
  "main_listing c work_path non_okay_log_records =
     io_bind
       (if non_okay_log_records \<noteq> [] then
          io_bind (print_line (''Non-OK log files in '' @ work_path @ '':'')) (\<lambda>_.
          io_bind (io_read (\<lambda>w. py_max (map (\<lambda>r. length (fst r)) non_okay_log_records)))
            (\<lambda>twidth.
          io_bind (io_read (\<lambda>w. py_max (map (\<lambda>r. length (fst (snd r))) non_okay_log_records)))
            (\<lambda>swidth.
          io_bind (io_read (\<lambda>w. py_max
                     (map (\<lambda>r. length (fst (snd (snd r)))) non_okay_log_records)))
            (\<lambda>pwidth.
          print_lines (map (format_record c twidth swidth pwidth) non_okay_log_records)))))
        else io_return ())
       (\<lambda>_. print_line [])"

definition main :: "externals \<Rightarrow> path \<Rightarrow> int \<Rightarrow> unit io" where
  "main c p wrap =
     io_bind (io_read (\<lambda>w. if path_exists w (resolve w p) then Inr ()
                            else Inl (AssertionError (PathNotFound (py_path p))))) (\<lambda>_.
     io_bind (io_read (\<lambda>w. read_info w (joinpath p (INFO_FILE c)))) (\<lambda>info_dct.
     let group_ids = InfoKey_group_ids info_dct;
         work_path = InfoKey_work_path info_dct
     in
     io_bind (main_groups c p work_path wrap group_ids []) (\<lambda>non_okay_log_records.
     main_listing c work_path non_okay_log_records)))"

section \<open>Example inputs\<close>

text \<open>
  A world with a single subtask directory \<open>/w/d\<close>, holding the given entries with the
  given statuses.
\<close>

definition logs_world :: "(string \<times> Status) list \<Rightarrow> world" where
  "logs_world logs =
     \<lparr>cwd = ''/w'', path_exists = (\<lambda>p. p = ''/w/d''), info_files = Map.empty,
      csv_files = Map.empty, task_files = Map.empty,
      listdir = (\<lambda>p. if p = ''/w/d'' then map fst logs else []),
      log_status = (\<lambda>p. case map_of (map (\<lambda>(n, s). (''/w/d/'' @ n, s)) logs) p of
                          Some s \<Rightarrow> s | None \<Rightarrow> TBD),
      stdout = []\<rparr>"

text \<open>
  A set-up with one group \<open>g\<close> of two tasks \<open>A\<close> and \<open>B\<close> over the keys \<open>p1\<close> and \<open>p2\<close>,
  in the work path \<open>/w\<close>, for a given matrix and working directory.  The directories
  \<open>a1\<close> and \<open>a2\<close> hold one log with status OK each, \<open>b1\<close> holds six logs of which one
  has status ERROR, \<open>b2\<close> holds no log, \<open>m1\<close> holds one log with status OK and one
  with status TBD.
\<close>

definition demo_externals :: externals where
  "demo_externals =
     \<lparr>STATUS_WIDTH = 7, INFO_FILE = ''info.yaml'', TableKey_task = ''task'',
      colored_status_string =
        (\<lambda>s. case s of TBD \<Rightarrow> ''TBD'' | RUNNING \<Rightarrow> ''RUNNING'' | OK \<Rightarrow> ''OK''
              | WARNING \<Rightarrow> ''WARNING'' | ERROR \<Rightarrow> ''ERROR'' | OK_1E \<Rightarrow> ''OK_1E''
              | OK_2E \<Rightarrow> ''OK_2E'')\<rparr>"

definition demo_tasks :: "Task list" where
  "demo_tasks = [\<lparr>name = ''A'', keys_of = [''p1'', ''p2'']\<rparr>,
                 \<lparr>name = ''B'', keys_of = [''p1'', ''p2'']\<rparr>]"

definition demo_world :: "path \<Rightarrow> row list \<Rightarrow> world" where
  "demo_world dir df =
     \<lparr>cwd = dir,
      path_exists = (\<lambda>p. p \<in> set [''/w'', ''/w/subtasks'', ''/w/a1'', ''/w/a2'', ''/w/b1'',
                                     ''/w/b2'', ''/w/m1'']),
      info_files = [''/w/subtasks/info.yaml'' \<mapsto>
                      \<lparr>InfoKey_group_ids = [''g''], InfoKey_work_path = ''/w''\<rparr>],
      csv_files = [''/w/subtasks/g.csv'' \<mapsto> df],
      task_files = [''/w/subtasks/g.yaml'' \<mapsto> demo_tasks],
      listdir = (\<lambda>p. if p = ''/w/a1'' \<or> p = ''/w/a2'' then [''out.log'']
                      else if p = ''/w/b1'' then [''out1.log'', ''out2.log'', ''out3.log'',
                                                  ''out4.log'', ''out5.log'', ''out6.log'']
                      else if p = ''/w/m1'' then [''out1.log'', ''out2.log'']
                      else []),
      log_status = (\<lambda>p. if p = ''/w/b1/out3.log'' then ERROR
                         else if p = ''/w/m1/out2.log'' then TBD else OK),
      stdout = []\<rparr>"

definition demo_matrix :: "row list" where
  "demo_matrix =
     [[(''task'', Text ''A''), (''p1'', Text ''a1''), (''p2'', Text ''a2'')],
      [(''task'', Text ''B''), (''p1'', Text ''b1''), (''p2'', Text ''b2'')]]"

text \<open>
  The example in the work path with other entries beside the logs in every directory,
  another info file elsewhere, no record of the existence of the subtask directories,
  and a line already printed.
\<close>

definition demo_world_noisy :: world where
  "demo_world_noisy =
     (demo_world ''/w'' demo_matrix)
       \<lparr>path_exists := (\<lambda>q. q = ''/w/subtasks''),
        info_files := (info_files (demo_world ''/w'' demo_matrix))
                        (''/elsewhere/info.yaml'' \<mapsto>
                           \<lparr>InfoKey_group_ids = [], InfoKey_work_path = ''/elsewhere''\<rparr>),
        listdir := (\<lambda>d. ''README'' # ''run.sh'' # listdir (demo_world ''/w'' demo_matrix) d),
        stdout := [''earlier output'']\<rparr>"


text \<open>Log files \<open>out.log\<close>, \<open>outx.log\<close>, \<open>outxx.log\<close>, \<dots> with the given statuses.\<close>

definition numbered_logs :: "Status list \<Rightarrow> (string \<times> Status) list" where
  "numbered_logs stats =
     map (\<lambda>(i, s). (''out'' @ replicate i CHR ''x'' @ ''.log'', s)) (zip [0..<length stats] stats)"

text \<open>Variants of the matrix: a cell whose logs are OK and TBD, a row that names a task
  the task list does not have at its place, and an empty cell.\<close>

definition demo_matrix_mixed :: "row list" where
  "demo_matrix_mixed =
     [[(''task'', Text ''A''), (''p1'', Text ''a1''), (''p2'', Text ''m1'')],
      [(''task'', Text ''B''), (''p1'', Text ''b1''), (''p2'', Text ''b2'')]]"

definition demo_matrix_mismatch :: "row list" where
  "demo_matrix_mismatch =
     [[(''task'', Text ''A''), (''p1'', Text ''a1''), (''p2'', Text ''a2'')],
      [(''task'', Text ''C''), (''p1'', Text ''b1''), (''p2'', Text ''b2'')]]"

definition demo_matrix_blank :: "row list" where
  "demo_matrix_blank =
     [[(''task'', Text ''A''), (''p1'', Text ''a1''), (''p2'', Blank)],
      [(''task'', Text ''B''), (''p1'', Text ''b1''), (''p2'', Text ''b2'')]]"


section \<open>The records of the closing listing, said directly\<close>

text \<open>
  The listing is to hold, for every group, every row of its matrix and every
  partition key, in this order, the logs of that cell whose status is not OK, with
  the name of the task of the row.
\<close>

definition row_records :: "world \<Rightarrow> Task list \<Rightarrow> string list \<Rightarrow> nat \<times> row \<Rightarrow> log_record list" where
  "row_records w tasks skeys kr =
     (case kr of (i, r) \<Rightarrow>
        concat (map (\<lambda>skey. case map_of r skey of
                      Some (Text sp) \<Rightarrow>
                        map (\<lambda>(p, s). (name (tasks ! i), skey, p, s))
                          (log_paths_with_statuses w sp [OK])
                    | _ \<Rightarrow> []) skeys))"

definition group_records :: "world \<Rightarrow> path \<Rightarrow> string \<Rightarrow> log_record list" where
  "group_records w p g =
     (case read_csv w (joinpath p (g @ ''.csv'')) of
        Inl _ \<Rightarrow> []
      | Inr df \<Rightarrow>
          (case read_task_list w (joinpath p (g @ ''.yaml'')) of
             Inl _ \<Rightarrow> []
           | Inr tasks \<Rightarrow>
               concat (map (row_records w tasks (subtask_keys tasks)) (zip [0..<length df] df))))"

definition listed_records :: "world \<Rightarrow> path \<Rightarrow> string list \<Rightarrow> log_record list" where
  "listed_records w p gids = concat (map (group_records w p) gids)"


section \<open>Reading and printing\<close>

text \<open>
  A function of the world only reads when the lines printed so far do not matter to
  it.  A computation only prints when its outcome and the lines it prints are fixed by
  the rest of the world, and the world it leaves is the one it found with those lines
  appended to the output.
\<close>

definition reads_only :: "(world \<Rightarrow> 'a) \<Rightarrow> bool" where
  "reads_only f \<longleftrightarrow> (\<forall>w s. f (w\<lparr>stdout := s\<rparr>) = f w)"

definition prints_only :: "'a io \<Rightarrow> bool" where
  "prints_only m \<longleftrightarrow>
     (\<forall>w. \<exists>r out. \<forall>s. m (w\<lparr>stdout := s\<rparr>) = (r, w\<lparr>stdout := s @ out\<rparr>))"

text \<open>
  Two worlds give a status pass at a path the same inputs when they have the same
  working directory and agree on the existence of the path, on the manifest, the
  matrices and the task lists of the groups under it, on the \<open>out*.log\<close> entries of
  every directory and on the status of every log.  They may differ in everything
  else: other directory entries, the existence of other paths, other info files, and
  the output so far.  A computation gives the same report when, on two such worlds,
  it ends the same way and prints the same lines.
\<close>

definition same_inputs :: "externals \<Rightarrow> path \<Rightarrow> world \<Rightarrow> world \<Rightarrow> bool" where
  "same_inputs c p w1 w2 \<longleftrightarrow>
     cwd w1 = cwd w2
     \<and> path_exists w1 (resolve w1 p) = path_exists w2 (resolve w2 p)
     \<and> read_info w1 (joinpath p (INFO_FILE c)) = read_info w2 (joinpath p (INFO_FILE c))
     \<and> (\<forall>g. read_csv w1 (joinpath p (g @ ''.csv'')) = read_csv w2 (joinpath p (g @ ''.csv'')))
     \<and> (\<forall>g. read_task_list w1 (joinpath p (g @ ''.yaml''))
              = read_task_list w2 (joinpath p (g @ ''.yaml'')))
     \<and> (\<forall>d. filter matches_out_log (listdir w1 d) = filter matches_out_log (listdir w2 d))
     \<and> log_status w1 = log_status w2"

definition same_report :: "externals \<Rightarrow> path \<Rightarrow> 'a io \<Rightarrow> bool" where
  "same_report c p m \<longleftrightarrow>
     (\<forall>w1 w2. same_inputs c p w1 w2 \<longrightarrow>
        (\<exists>r out. m w1 = (r, w1\<lparr>stdout := stdout w1 @ out\<rparr>)
                 \<and> m w2 = (r, w2\<lparr>stdout := stdout w2 @ out\<rparr>)))"


section \<open>Properties of the status aggregator\<close>

lemma remdups_length_one: "length (remdups xs) = 1 \<longleftrightarrow> (\<exists>x. set xs = {x})"
proof -
  have "length (remdups xs) = card (set xs)" by (simp add: card_set)
  then show ?thesis by (simp add: card_1_singleton_iff)
qed

lemma hd_remdups_singleton:
  assumes "set xs = {x}"
  shows "hd (remdups xs) = x"
proof -
  from assms have "remdups xs \<noteq> []" by auto
  then have "hd (remdups xs) \<in> set (remdups xs)" by (rule hd_in_set)
  with assms show ?thesis by simp
qed

lemma two_distinct_iff:
  assumes "xs \<noteq> []"
  shows "(2 \<le> card (set xs)) = (\<nexists>x. set xs = {x})"
proof -
  have c0: "card (set xs) \<noteq> 0" using assms by simp
  have c1: "(card (set xs) = 1) = (\<exists>x. set xs = {x})" by (simp add: card_1_singleton_iff)
  have "(2 \<le> card (set xs)) = (card (set xs) \<noteq> 1)" using c0 by arith
  then show ?thesis using c1 by simp
qed

lemma all_equal_iff: "xs \<noteq> [] \<Longrightarrow> (\<forall>s\<in>set xs. s = X) = (set xs = {X})"
  by (cases xs) auto

lemma fraction_below_fifth:
  assumes "0 < N"
  shows "((of_nat k :: rat) / of_nat N < 2 / 10) = (5 * k < N)"
proof -
  have "((of_nat k :: rat) / of_nat N < 2 / 10) = ((of_nat (10 * k) :: rat) < of_nat (2 * N))"
    using assms by (simp add: field_simps)
  also have "\<dots> = (10 * k < 2 * N)" by (simp only: of_nat_less_iff)
  also have "\<dots> = (5 * k < N)" by auto
  finally show ?thesis .
qed

text \<open>The decision list of \<open>parse_subtask_status\<close> on a nonempty list of log statuses.\<close>

lemma parse_subtask_status_cases:
  assumes "log_stats = map snd (log_paths_with_statuses w p [])" and "log_stats \<noteq> []"
  shows "parse_subtask_status w p th =
     (if (\<exists>x. set log_stats = {x}) then Inr (hd (remdups log_stats))
      else if RUNNING \<in> set log_stats then Inr RUNNING
      else if count_list log_stats ERROR = 1
            \<and> (of_nat (count_list log_stats ERROR) :: rat) / of_nat (length log_stats) < th
        then Inr OK_1E
      else if count_list log_stats ERROR = 2
            \<and> (of_nat (count_list log_stats ERROR) :: rat) / of_nat (length log_stats) < th
        then Inr OK_2E
      else if ERROR \<in> set log_stats then Inr ERROR
      else if set log_stats = {OK, WARNING} then Inr WARNING
      else Inl (AssertionError NoMessage))"
proof -
  from assms have ne: "log_paths_with_statuses w p [] \<noteq> []" by auto
  show ?thesis
    unfolding parse_subtask_status_def Let_def assms(1)[symmetric] remdups_length_one
    using ne by auto
qed

lemma parse_subtask_status_no_logs:
  "log_paths_with_statuses w p [] = [] \<Longrightarrow> parse_subtask_status w p th = Inr TBD"
  by (simp add: parse_subtask_status_def)

text \<open>
  Claim C3.  For a nonempty collection of log statuses: when all logs share one status,
  that status is the result, and this rule comes first; otherwise, when some log is
  RUNNING, the result is RUNNING, whatever the other statuses are.
\<close>

theorem parse_subtask_status_common_then_running:
  assumes "log_stats = map snd (log_paths_with_statuses w p [])" and "log_stats \<noteq> []"
  shows "((\<forall>s\<in>set log_stats. s = X) \<longrightarrow> parse_subtask_status w p th = Inr X) \<and>
         ((\<nexists>Y. \<forall>s\<in>set log_stats. s = Y) \<and> RUNNING \<in> set log_stats \<longrightarrow>
            parse_subtask_status w p th = Inr RUNNING)"
  using assms(2)
  by (auto simp: parse_subtask_status_cases[OF assms] all_equal_iff hd_remdups_singleton)

theorem parse_subtask_status_common_then_running_witness:
  "parse_subtask_status (logs_world (numbered_logs [OK, OK, RUNNING])) ''d''
       small_thresh_default = Inr RUNNING
   \<and> parse_subtask_status (logs_world (numbered_logs [ERROR, ERROR, ERROR, ERROR, ERROR])) ''d''
       small_thresh_default = Inr ERROR
   \<and> parse_subtask_status (logs_world (numbered_logs [OK, OK, OK])) ''d''
       small_thresh_default = Inr OK"
proof -
  have e1: "[OK, OK, RUNNING] =
      map snd (log_paths_with_statuses (logs_world (numbered_logs [OK, OK, RUNNING])) ''d'' [])"
    by code_simp
  have e2: "[ERROR, ERROR, ERROR, ERROR, ERROR] =
      map snd (log_paths_with_statuses
                 (logs_world (numbered_logs [ERROR, ERROR, ERROR, ERROR, ERROR])) ''d'' [])"
    by code_simp
  have e3: "[OK, OK, OK] =
      map snd (log_paths_with_statuses (logs_world (numbered_logs [OK, OK, OK])) ''d'' [])"
    by code_simp
  from parse_subtask_status_common_then_running[OF e1, of OK small_thresh_default]
       parse_subtask_status_common_then_running[OF e2, of ERROR small_thresh_default]
       parse_subtask_status_common_then_running[OF e3, of OK small_thresh_default]
  show ?thesis by simp
qed

text \<open>
  Claim C1.  For a nonempty collection of \<open>N\<close> log statuses with at least two distinct
  values and no RUNNING, of which \<open>k\<close> are ERROR: with \<open>k = 1\<close> and \<open>1/N < 0.2\<close> the
  result is OK_1E; with \<open>k = 2\<close> and \<open>2/N < 0.2\<close> it is OK_2E; when an ERROR is present
  and neither case applies it is ERROR, in particular for one ERROR among five logs.
\<close>

theorem parse_subtask_status_error_tolerance:
  assumes "log_stats = map snd (log_paths_with_statuses w p [])" and "log_stats \<noteq> []"
    and "2 \<le> card (set log_stats)" and "RUNNING \<notin> set log_stats"
    and "k = count_list log_stats ERROR" and "N = length log_stats"
    and "res = parse_subtask_status w p small_thresh_default"
  shows "(k = 1 \<and> (1::rat) / of_nat N < 2 / 10 \<longrightarrow> res = Inr OK_1E) \<and>
         (k = 2 \<and> (2::rat) / of_nat N < 2 / 10 \<longrightarrow> res = Inr OK_2E) \<and>
         (ERROR \<in> set log_stats \<and> \<not> (k = 1 \<and> (1::rat) / of_nat N < 2 / 10)
            \<and> \<not> (k = 2 \<and> (2::rat) / of_nat N < 2 / 10) \<longrightarrow> res = Inr ERROR) \<and>
         (k = 1 \<and> N = 5 \<longrightarrow> res = Inr ERROR)"
proof -
  have nd: "\<nexists>x. set log_stats = {x}" using two_distinct_iff[OF assms(2)] assms(3) by simp
  have e1: "count_list log_stats ERROR = 1 \<Longrightarrow> ERROR \<in> set log_stats"
    by (metis count_list_0_iff zero_neq_one)
  show ?thesis
    unfolding assms(7) parse_subtask_status_cases[OF assms(1,2)] small_thresh_default_def
      assms(5,6)
    using nd assms(4) e1 by auto
qed

theorem parse_subtask_status_error_tolerance_witness:
  "parse_subtask_status (logs_world (numbered_logs [OK, ERROR, OK, OK, OK, OK])) ''d''
       small_thresh_default = Inr OK_1E
   \<and> parse_subtask_status (logs_world (numbered_logs [OK, ERROR, OK, OK, OK])) ''d''
       small_thresh_default = Inr ERROR
   \<and> parse_subtask_status
       (logs_world (numbered_logs [OK, ERROR, OK, OK, OK, OK, ERROR, OK, OK, OK, OK])) ''d''
       small_thresh_default = Inr OK_2E
   \<and> parse_subtask_status (logs_world (numbered_logs [OK, ERROR, OK, ERROR, OK])) ''d''
       small_thresh_default = Inr ERROR"
proof -
  have e1: "[OK, ERROR, OK, OK, OK, OK] =
      map snd (log_paths_with_statuses
                 (logs_world (numbered_logs [OK, ERROR, OK, OK, OK, OK])) ''d'' [])"
    by code_simp
  have e2: "[OK, ERROR, OK, OK, OK] =
      map snd (log_paths_with_statuses
                 (logs_world (numbered_logs [OK, ERROR, OK, OK, OK])) ''d'' [])"
    by code_simp
  have e3: "[OK, ERROR, OK, OK, OK, OK, ERROR, OK, OK, OK, OK] =
      map snd (log_paths_with_statuses
                 (logs_world (numbered_logs
                    [OK, ERROR, OK, OK, OK, OK, ERROR, OK, OK, OK, OK])) ''d'' [])"
    by code_simp
  have e4: "[OK, ERROR, OK, ERROR, OK] =
      map snd (log_paths_with_statuses
                 (logs_world (numbered_logs [OK, ERROR, OK, ERROR, OK])) ''d'' [])"
    by code_simp
  have c1: "2 \<le> card (set [OK, ERROR, OK, OK, OK, OK])"
    and c2: "2 \<le> card (set [OK, ERROR, OK, OK, OK])"
    and c3: "2 \<le> card (set [OK, ERROR, OK, OK, OK, OK, ERROR, OK, OK, OK, OK])"
    and c4: "2 \<le> card (set [OK, ERROR, OK, ERROR, OK])"
    by (simp_all add: card_insert_if)
  from parse_subtask_status_error_tolerance[OF e1 _ c1 _ refl refl refl]
       parse_subtask_status_error_tolerance[OF e2 _ c2 _ refl refl refl]
       parse_subtask_status_error_tolerance[OF e3 _ c3 _ refl refl refl]
       parse_subtask_status_error_tolerance[OF e4 _ c4 _ refl refl refl]
  show ?thesis by simp
qed

text \<open>
  Claim C10.  For a nonempty collection of log statuses with at least two distinct
  values and no RUNNING, whether the result is OK_1E or OK_2E is decided by the number
  of ERROR logs and the number of logs alone; the statuses of the other logs play no
  part.  So one ERROR among six logs whose others are all TBD gives OK_1E, and two
  ERRORs among eleven logs whose others are TBD or WARNING give OK_2E.
\<close>

theorem parse_subtask_status_tolerance_ignores_others:
  assumes "log_stats = map snd (log_paths_with_statuses w p [])" and "log_stats \<noteq> []"
    and "2 \<le> card (set log_stats)" and "RUNNING \<notin> set log_stats"
  shows "(parse_subtask_status w p small_thresh_default = Inr OK_1E
            \<longleftrightarrow> count_list log_stats ERROR = 1 \<and> 6 \<le> length log_stats) \<and>
         (parse_subtask_status w p small_thresh_default = Inr OK_2E
            \<longleftrightarrow> count_list log_stats ERROR = 2 \<and> 11 \<le> length log_stats)"
proof -
  have nd: "\<nexists>x. set log_stats = {x}" using two_distinct_iff[OF assms(2)] assms(3) by simp
  have pos: "0 < length log_stats" using assms(2) by simp
  show ?thesis
    unfolding parse_subtask_status_cases[OF assms(1,2)] small_thresh_default_def
      fraction_below_fifth[OF pos]
    using nd assms(4) by auto
qed

theorem parse_subtask_status_tolerance_ignores_others_witness:
  "parse_subtask_status (logs_world (numbered_logs [TBD, TBD, ERROR, TBD, TBD, TBD])) ''d''
       small_thresh_default = Inr OK_1E
   \<and> parse_subtask_status
       (logs_world (numbered_logs
          [TBD, WARNING, ERROR, TBD, TBD, WARNING, WARNING, ERROR, TBD, WARNING, TBD])) ''d''
       small_thresh_default = Inr OK_2E"
proof -
  have e1: "[TBD, TBD, ERROR, TBD, TBD, TBD] =
      map snd (log_paths_with_statuses
                 (logs_world (numbered_logs [TBD, TBD, ERROR, TBD, TBD, TBD])) ''d'' [])"
    by code_simp
  have e2: "[TBD, WARNING, ERROR, TBD, TBD, WARNING, WARNING, ERROR, TBD, WARNING, TBD] =
      map snd (log_paths_with_statuses
                 (logs_world (numbered_logs
                    [TBD, WARNING, ERROR, TBD, TBD, WARNING, WARNING, ERROR, TBD, WARNING, TBD]))
                 ''d'' [])"
    by code_simp
  have c1: "2 \<le> card (set [TBD, TBD, ERROR, TBD, TBD, TBD])"
    and c2: "2 \<le> card (set [TBD, WARNING, ERROR, TBD, TBD, WARNING, WARNING, ERROR, TBD,
                                WARNING, TBD])"
    by (simp_all add: card_insert_if)
  from parse_subtask_status_tolerance_ignores_others[OF e1 _ c1]
       parse_subtask_status_tolerance_ignores_others[OF e2 _ c2]
  show ?thesis by simp
qed

section \<open>The status pass only reads and prints\<close>

lemma prints_onlyI:
  "(\<And>w. \<exists>r out. \<forall>s. m (w\<lparr>stdout := s\<rparr>) = (r, w\<lparr>stdout := s @ out\<rparr>)) \<Longrightarrow> prints_only m"
  by (simp add: prints_only_def)

lemma prints_onlyD:
  "prints_only m \<Longrightarrow> \<exists>r out. \<forall>s. m (w\<lparr>stdout := s\<rparr>) = (r, w\<lparr>stdout := s @ out\<rparr>)"
  by (simp add: prints_only_def)

lemma prints_only_result:
  assumes "prints_only m" and "m w = (r, w')"
  shows "\<exists>out. w' = w\<lparr>stdout := stdout w @ out\<rparr>"
proof -
  from prints_onlyD[OF assms(1), of w] obtain r0 out
    where h: "\<And>s. m (w\<lparr>stdout := s\<rparr>) = (r0, w\<lparr>stdout := s @ out\<rparr>)"
    by blast
  from h[of "stdout w"] assms(2) have "w' = w\<lparr>stdout := stdout w @ out\<rparr>" by simp
  then show ?thesis ..
qed

lemma prints_only_return [simp]: "prints_only (io_return x)"
  by (rule prints_onlyI) (simp add: io_return_def, metis append_Nil2)

lemma prints_only_raise [simp]: "prints_only (io_raise e)"
  by (rule prints_onlyI) (simp add: io_raise_def, metis append_Nil2)

lemma prints_only_print_line [simp]: "prints_only (print_line l)"
  by (rule prints_onlyI) (simp add: print_line_def, blast)

lemma prints_only_read: "reads_only f \<Longrightarrow> prints_only (io_read f)"
  by (rule prints_onlyI) (simp add: io_read_def reads_only_def, metis append_Nil2)

lemma prints_only_bind:
  assumes m: "prints_only m" and f: "\<And>x. prints_only (f x)"
  shows "prints_only (io_bind m f)"
proof (rule prints_onlyI)
  fix w
  from prints_onlyD[OF m, of w] obtain r out
    where h: "\<And>s. m (w\<lparr>stdout := s\<rparr>) = (r, w\<lparr>stdout := s @ out\<rparr>)"
    by blast
  show "\<exists>r out. \<forall>s. io_bind m f (w\<lparr>stdout := s\<rparr>) = (r, w\<lparr>stdout := s @ out\<rparr>)"
  proof (cases r)
    case (Inl e)
    with h have "\<forall>s. io_bind m f (w\<lparr>stdout := s\<rparr>) = (Inl e, w\<lparr>stdout := s @ out\<rparr>)"
      by (simp add: io_bind_def)
    then show ?thesis by blast
  next
    case (Inr x)
    from prints_onlyD[OF f[of x], of w] obtain r' out' where
      h': "\<And>s. f x (w\<lparr>stdout := s\<rparr>) = (r', w\<lparr>stdout := s @ out'\<rparr>)"
      by blast
    have "\<forall>s. io_bind m f (w\<lparr>stdout := s\<rparr>) = (r', w\<lparr>stdout := s @ (out @ out')\<rparr>)"
    proof
      fix s
      have "io_bind m f (w\<lparr>stdout := s\<rparr>) = f x (w\<lparr>stdout := s @ out\<rparr>)"
        using h[of s] Inr by (simp add: io_bind_def)
      also have "\<dots> = (r', w\<lparr>stdout := (s @ out) @ out'\<rparr>)" by (rule h')
      finally show "io_bind m f (w\<lparr>stdout := s\<rparr>) = (r', w\<lparr>stdout := s @ (out @ out')\<rparr>)"
        by simp
    qed
    then show ?thesis by blast
  qed
qed

lemma reads_only_const [simp]: "reads_only (\<lambda>w. x)"
  by (simp add: reads_only_def)

lemma resolve_stdout [simp]: "resolve (w\<lparr>stdout := s\<rparr>) p = resolve w p"
  by (simp add: resolve_def)

lemma glob_out_log_stdout [simp]: "glob_out_log (w\<lparr>stdout := s\<rparr>) p = glob_out_log w p"
  by (simp add: glob_out_log_def)

lemma parse_log_status_stdout [simp]: "parse_log_status (w\<lparr>stdout := s\<rparr>) = parse_log_status w"
  by (rule ext) (simp add: parse_log_status_def)

lemma log_paths_with_statuses_stdout [simp]:
  "log_paths_with_statuses (w\<lparr>stdout := s\<rparr>) p ex = log_paths_with_statuses w p ex"
  by (simp add: log_paths_with_statuses_def)

lemma parse_subtask_status_stdout [simp]:
  "parse_subtask_status (w\<lparr>stdout := s\<rparr>) p th = parse_subtask_status w p th"
  by (simp add: parse_subtask_status_def)

lemma cell_records_stdout [simp]: "cell_records (w\<lparr>stdout := s\<rparr>) = cell_records w"
  by (simp add: fun_eq_iff cell_records_def split: sum.splits)

lemma read_stdout [simp]:
  "read_info (w\<lparr>stdout := s\<rparr>) p = read_info w p"
  "read_csv (w\<lparr>stdout := s\<rparr>) p = read_csv w p"
  "read_task_list (w\<lparr>stdout := s\<rparr>) p = read_task_list w p"
  by (simp_all add: read_info_def read_csv_def read_task_list_def)

lemma prints_only_print_lines [simp]: "prints_only (print_lines ls)"
  by (induction ls) (simp_all add: prints_only_bind)

lemma prints_only_print_long_row_guide [simp]:
  "prints_only (print_long_row_guide c lw n wrap ch)"
  by (simp add: print_long_row_guide_def Let_def)

lemma prints_only_print_chunks [simp]: "prints_only (print_chunks c label chunks lw)"
  by (induction chunks arbitrary: label) (simp_all add: prints_only_bind)

lemma prints_only_print_task_row [simp]: "prints_only (print_task_row c label vals lw wrap)"
  by (simp add: print_task_row_def prints_only_bind)

lemma prints_only_main_row [simp]:
  "prints_only (main_row c wp tasks skeys tw wrap kr recs)"
  by (cases kr)
     (auto simp: main_row_def Let_def reads_only_def
           intro!: prints_only_bind prints_only_read split: option.splits)

lemma prints_only_main_rows [simp]:
  "prints_only (main_rows c wp tasks skeys tw wrap rows recs)"
  by (induction rows arbitrary: recs) (simp_all add: prints_only_bind)

lemma prints_only_main_group [simp]: "prints_only (main_group c p wp wrap g recs)"
  by (auto simp: main_group_def Let_def reads_only_def intro!: prints_only_bind prints_only_read)

lemma prints_only_main_groups [simp]: "prints_only (main_groups c p wp wrap gs recs)"
  by (induction gs arbitrary: recs) (simp_all add: prints_only_bind)

lemma prints_only_main_listing [simp]: "prints_only (main_listing c wp recs)"
  by (auto simp: main_listing_def reads_only_def intro!: prints_only_bind prints_only_read)

lemma prints_only_main: "prints_only (main c p wrap)"
  by (auto simp: main_def Let_def reads_only_def intro!: prints_only_bind prints_only_read)

text \<open>
  Claim C9.  The status pass writes none of the persisted artifacts: whatever its input
  and however it ends, the world it leaves has the working directory, the existing
  paths, the info, matrix and task-list files, the directories and the logs it found;
  only lines are added to the output.  (The aggregator functions
  \<open>log_paths_with_statuses\<close> and \<open>parse_subtask_status\<close> return no world at all.)
\<close>

theorem status_pass_writes_nothing:
  "cwd (snd (main c p wrap w)) = cwd w
   \<and> path_exists (snd (main c p wrap w)) = path_exists w
   \<and> info_files (snd (main c p wrap w)) = info_files w
   \<and> csv_files (snd (main c p wrap w)) = csv_files w
   \<and> task_files (snd (main c p wrap w)) = task_files w
   \<and> listdir (snd (main c p wrap w)) = listdir w
   \<and> log_status (snd (main c p wrap w)) = log_status w
   \<and> (\<exists>out. stdout (snd (main c p wrap w)) = stdout w @ out)"
proof -
  obtain r w' where rw: "main c p wrap w = (r, w')" by (cases "main c p wrap w")
  from prints_only_result[OF prints_only_main rw]
  obtain out where "w' = w\<lparr>stdout := stdout w @ out\<rparr>" by blast
  with rw show ?thesis by simp
qed

section \<open>Properties of the renderer\<close>

lemma chunked_Nil [simp]: "chunked [] n = []"
  by (simp add: chunked.simps)

lemma chunked_zero [simp]: "chunked xs 0 = []"
  by (simp add: chunked.simps)









lemma io_bind_Inr_iff:
  "io_bind m f w = (Inr y, w'') \<longleftrightarrow> (\<exists>x w'. m w = (Inr x, w') \<and> f x w' = (Inr y, w''))"
  by (auto simp: io_bind_def split: prod.splits sum.splits)

lemma io_bind_Inl: "m w = (Inl e, w') \<Longrightarrow> io_bind m f w = (Inl e, w')"
  by (simp add: io_bind_def)

lemma io_bind_Inr: "m w = (Inr x, w') \<Longrightarrow> io_bind m f w = f x w'"
  by (simp add: io_bind_def)

lemma io_read_eq [simp]: "io_read f w = (r, w') \<longleftrightarrow> f w = r \<and> w' = w"
  by (auto simp: io_read_def)

lemma io_return_eq [simp]: "io_return x w = (r, w') \<longleftrightarrow> r = Inr x \<and> w' = w"
  by (auto simp: io_return_def)

lemma io_raise_eq [simp]: "io_raise e w = (r, w') \<longleftrightarrow> r = Inl e \<and> w' = w"
  by (auto simp: io_raise_def)




lemma main_row_Inr:
  assumes "main_row c wp tasks skeys tw wrap (i, r) recs w = (Inr recs', w')"
  shows "i < length tasks \<and> map_of r (TableKey_task c) = Some (Text (name (tasks ! i)))
    \<and> (\<exists>aps stats new.
          map_result (path_div wp) (map (map_of r) skeys) = Inr aps
        \<and> map_result (\<lambda>p. parse_subtask_status w p small_thresh_default) aps = Inr stats
        \<and> print_task_row c (name (tasks ! i)) (map (colored_status_string c) stats) tw wrap w
            = (Inr (), w')
        \<and> map_result (cell_records w (name (tasks ! i))) (zip skeys (map (map_of r) skeys))
            = Inr new
        \<and> recs' = recs @ concat new)"
proof -
  have lt: "i < length tasks" using assms by (auto simp: main_row_def split: if_splits)
  obtain v where v: "map_of r (TableKey_task c) = Some v"
    using assms lt by (auto simp: main_row_def Let_def split: option.splits)
  have vt: "v = Text (name (tasks ! i))"
    using assms lt v by (auto simp: main_row_def Let_def split: if_splits)
  from assms lt v vt obtain aps stats u new where
    a: "map_result (path_div wp) (map (map_of r) skeys) = Inr aps"
    and b: "map_result (\<lambda>p. parse_subtask_status w p small_thresh_default) aps = Inr stats"
    and p: "print_task_row c (name (tasks ! i)) (map (colored_status_string c) stats) tw wrap w
            = (Inr u, w')"
    and n: "map_result (cell_records w' (name (tasks ! i))) (zip skeys (map (map_of r) skeys))
            = Inr new"
    and e: "recs' = recs @ concat new"
    by (auto simp: main_row_def Let_def io_bind_Inr_iff)
  from prints_only_result[OF prints_only_print_task_row p] obtain out
    where "w' = w\<lparr>stdout := stdout w @ out\<rparr>" by blast
  with n have "map_result (cell_records w (name (tasks ! i))) (zip skeys (map (map_of r) skeys))
            = Inr new" by simp
  with lt v vt a b p e show ?thesis by auto
qed





section \<open>Status passes that end without an exception\<close>

lemma map_result_Inr_iff: "map_result f xs = Inr ys \<longleftrightarrow> map f xs = map Inr ys"
proof (induction xs arbitrary: ys)
  case Nil
  then show ?case by auto
next
  case (Cons x xs)
  show ?case
  proof (cases ys)
    case Nil
    then show ?thesis by (auto split: sum.splits)
  next
    case (Cons y ys')
    show ?thesis
      unfolding Cons using Cons.IH[of ys']
      by (cases "f x"; cases "map_result f xs") auto
  qed
qed

lemma map_result_Inr_mem:
  assumes "map_result f xs = Inr ys" and "x \<in> set xs"
  shows "\<exists>y. f x = Inr y"
proof -
  from assms(1) have "map f xs = map Inr ys" by (simp add: map_result_Inr_iff)
  moreover from assms(2) have "f x \<in> set (map f xs)" by simp
  ultimately show ?thesis by auto
qed

lemma map_result_Inl_mem:
  assumes "x \<in> set xs" and "f x = Inl e"
  shows "\<exists>e'. map_result f xs = Inl e' \<and> (\<exists>x'\<in>set xs. f x' = Inl e')"
  using assms
proof (induction xs)
  case Nil
  then show ?case by simp
next
  case (Cons a xs)
  show ?case
  proof (cases "f a")
    case (Inl e0)
    then show ?thesis by auto
  next
    case (Inr y)
    with Cons.prems have "x \<in> set xs" by auto
    from Cons.IH[OF this Cons.prems(2)] obtain e' x' where
      "map_result f xs = Inl e'" "x' \<in> set xs" "f x' = Inl e'" by blast
    with Inr show ?thesis by auto
  qed
qed

text \<open>The records of a row whose cells are all text.\<close>

lemma cell_records_row:
  assumes "map_result (cell_records w nm) (zip skeys (map (map_of r) skeys)) = Inr new"
  shows "concat new =
     concat (map (\<lambda>skey. case map_of r skey of
                      Some (Text sp) \<Rightarrow>
                        map (\<lambda>(p, s). (nm, skey, p, s)) (log_paths_with_statuses w sp [OK])
                    | _ \<Rightarrow> []) skeys)"
  using assms
proof (induction skeys arbitrary: new)
  case Nil
  then show ?case by simp
next
  case (Cons k ks)
  then show ?case
    by (auto simp: cell_records_def fspath_def split: sum.splits option.splits cell.splits)
qed

lemma main_row_records:
  assumes "main_row c wp tasks skeys tw wrap (i, r) recs w = (Inr recs', w')"
  shows "recs' = recs @ row_records w tasks skeys (i, r)"
proof -
  from main_row_Inr[OF assms] obtain new where
    "map_result (cell_records w (name (tasks ! i))) (zip skeys (map (map_of r) skeys)) = Inr new"
    and "recs' = recs @ concat new" by blast
  then show ?thesis by (simp add: row_records_def cell_records_row)
qed

lemma row_records_stdout [simp]: "row_records (w\<lparr>stdout := s\<rparr>) = row_records w"
  by (simp add: fun_eq_iff row_records_def cong: option.case_cong cell.case_cong)

lemma group_records_stdout [simp]: "group_records (w\<lparr>stdout := s\<rparr>) = group_records w"
  by (simp add: fun_eq_iff group_records_def cong: sum.case_cong)

text \<open>What a row that was processed without an exception has passed.\<close>

lemma main_row_Inr_checks:
  assumes "main_row c wp tasks skeys tw wrap (i, r) recs w = (Inr recs', w')"
  shows "i < length tasks \<and> map_of r (TableKey_task c) = Some (Text (name (tasks ! i)))
    \<and> (\<forall>skey\<in>set skeys. \<exists>sp st. map_of r skey = Some (Text sp)
          \<and> parse_subtask_status w (joinpath wp sp) small_thresh_default = Inr st)"
proof -
  from main_row_Inr[OF assms] obtain aps stats where
    lt: "i < length tasks" and tk: "map_of r (TableKey_task c) = Some (Text (name (tasks ! i)))"
    and a: "map_result (path_div wp) (map (map_of r) skeys) = Inr aps"
    and b: "map_result (\<lambda>p. parse_subtask_status w p small_thresh_default) aps = Inr stats"
    by blast
  have "\<exists>sp st. map_of r skey = Some (Text sp)
          \<and> parse_subtask_status w (joinpath wp sp) small_thresh_default = Inr st"
    if "skey \<in> set skeys" for skey
  proof -
    from that have m: "map_of r skey \<in> set (map (map_of r) skeys)" by simp
    from map_result_Inr_mem[OF a m] obtain ap where ap: "path_div wp (map_of r skey) = Inr ap"
      by blast
    then obtain sp where sp: "map_of r skey = Some (Text sp)" and j: "ap = joinpath wp sp"
      by (auto simp: path_div_def fspath_def split: option.splits cell.splits)
    from a have "map (path_div wp) (map (map_of r) skeys) = map Inr aps"
      by (simp add: map_result_Inr_iff)
    with m ap have "Inr ap \<in> set (map Inr aps :: (error + path) list)"
      by (metis (no_types, lifting) image_eqI list.set_map)
    then have "ap \<in> set aps" by auto
    from map_result_Inr_mem[OF b this] obtain st
      where "parse_subtask_status w ap small_thresh_default = Inr st" by blast
    with sp j show ?thesis by blast
  qed
  with lt tk show ?thesis by blast
qed

lemma main_rows_Inr:
  assumes "main_rows c wp tasks skeys tw wrap rows recs w = (Inr recs', w')"
  shows "recs' = recs @ concat (map (row_records w tasks skeys) rows)
    \<and> (\<forall>(i, r)\<in>set rows.
          i < length tasks \<and> map_of r (TableKey_task c) = Some (Text (name (tasks ! i)))
        \<and> (\<forall>skey\<in>set skeys. \<exists>sp st. map_of r skey = Some (Text sp)
              \<and> parse_subtask_status w (joinpath wp sp) small_thresh_default = Inr st))"
  using assms
proof (induction rows arbitrary: recs w)
  case Nil
  then show ?case by simp
next
  case (Cons kr rows)
  obtain i r where kr: "kr = (i, r)" by (cases kr)
  from Cons.prems obtain recs1 w1 where
    h: "main_row c wp tasks skeys tw wrap (i, r) recs w = (Inr recs1, w1)"
    and t: "main_rows c wp tasks skeys tw wrap rows recs1 w1 = (Inr recs', w')"
    by (auto simp: kr io_bind_Inr_iff)
  from prints_only_result[OF prints_only_main_row h] obtain out
    where w1: "w1 = w\<lparr>stdout := stdout w @ out\<rparr>" by blast
  note ih = Cons.IH[OF t, unfolded w1, simplified]
  note hd = main_row_Inr_checks[OF h]
  have r1: "recs1 = recs @ row_records w tasks skeys (i, r)" by (rule main_row_records[OF h])
  show ?case using ih hd r1 by (simp add: kr)
qed

lemma main_group_Inr:
  assumes "main_group c p wp wrap g recs w = (Inr recs', w')"
  shows "\<exists>df tasks tw. read_csv w (joinpath p (g @ ''.csv'')) = Inr df
     \<and> read_task_list w (joinpath p (g @ ''.yaml'')) = Inr tasks
     \<and> task_column_width tasks = Inr tw \<and> 0 \<le> wrap
     \<and> recs' = recs @ group_records w p g
     \<and> (\<forall>i<length df.
          i < length tasks
        \<and> map_of (df ! i) (TableKey_task c) = Some (Text (name (tasks ! i)))
        \<and> (\<forall>skey\<in>set (subtask_keys tasks). \<exists>sp st. map_of (df ! i) skey = Some (Text sp)
              \<and> parse_subtask_status w (joinpath wp sp) small_thresh_default = Inr st))"
proof -
  from assms obtain df tasks tw w1 w2 w3 where
    r1: "read_csv w (joinpath p (g @ ''.csv'')) = Inr df"
    and r2: "read_task_list w (joinpath p (g @ ''.yaml'')) = Inr tasks"
    and r3: "task_column_width tasks = Inr tw"
    and g1: "print_long_row_guide c tw (length (subtask_keys tasks)) wrap ''#'' w = (Inr (), w1)"
    and g2: "print_task_row c (TableKey_task c) (subtask_keys tasks) tw wrap w1 = (Inr (), w2)"
    and rs: "main_rows c wp tasks (subtask_keys tasks) tw wrap (zip [0..<length df] df) recs w2
              = (Inr recs', w3)"
    by (auto simp: main_group_def Let_def io_bind_Inr_iff)
  have wr: "0 \<le> wrap"
  proof (rule ccontr)
    assume "\<not> 0 \<le> wrap"
    then have "print_task_row c (TableKey_task c) (subtask_keys tasks) tw wrap w1
                 = (Inl ValueError, w1)"
      by (simp add: print_task_row_def)
    with g2 show False by simp
  qed
  from prints_only_result[OF prints_only_print_long_row_guide g1] obtain o1
    where w1: "w1 = w\<lparr>stdout := stdout w @ o1\<rparr>" by blast
  from prints_only_result[OF prints_only_print_task_row g2] obtain o2
    where w2: "w2 = w1\<lparr>stdout := stdout w1 @ o2\<rparr>" by blast
  note m = main_rows_Inr[OF rs, unfolded w2 w1, simplified]
  have gr: "group_records w p g =
      concat (map (row_records w tasks (subtask_keys tasks)) (zip [0..<length df] df))"
    by (simp add: group_records_def r1 r2)
  have "(i, df ! i) \<in> set (zip [0..<length df] df)" if "i < length df" for i
    using that by (force simp: set_zip)
  with m r1 r2 r3 wr gr show ?thesis by fastforce
qed

lemma listed_records_stdout [simp]: "listed_records (w\<lparr>stdout := s\<rparr>) = listed_records w"
  by (simp add: fun_eq_iff listed_records_def)

lemma main_groups_Inr:
  assumes "main_groups c p wp wrap gs recs w = (Inr recs', w')"
  shows "recs' = recs @ listed_records w p gs
    \<and> (\<forall>g\<in>set gs. \<exists>recs1 recs2 s w2.
          main_group c p wp wrap g recs1 (w\<lparr>stdout := s\<rparr>) = (Inr recs2, w2))"
  using assms
proof (induction gs arbitrary: recs w)
  case Nil
  then show ?case by (simp add: listed_records_def)
next
  case (Cons g gs)
  from Cons.prems obtain recs1 w1 where
    h: "main_group c p wp wrap g recs w = (Inr recs1, w1)"
    and t: "main_groups c p wp wrap gs recs1 w1 = (Inr recs', w')"
    by (auto simp: io_bind_Inr_iff)
  from prints_only_result[OF prints_only_main_group h] obtain out
    where w1: "w1 = w\<lparr>stdout := stdout w @ out\<rparr>" by blast
  note ih = Cons.IH[OF t, unfolded w1, simplified]
  from main_group_Inr[OF h] have r1: "recs1 = recs @ group_records w p g" by blast
  have "main_group c p wp wrap g recs (w\<lparr>stdout := stdout w\<rparr>) = (Inr recs1, w1)"
    using h by simp
  then have hd: "\<exists>recs1 recs2 s w2.
          main_group c p wp wrap g recs1 (w\<lparr>stdout := s\<rparr>) = (Inr recs2, w2)" by blast
  show ?case using ih hd r1 by (simp add: listed_records_def)
qed

lemma main_Inr:
  assumes "main c p wrap w = (Inr u, w')"
  shows "path_exists w (resolve w p)
    \<and> (\<exists>info w1. read_info w (joinpath p (INFO_FILE c)) = Inr info
         \<and> main_groups c p (InfoKey_work_path info) wrap (InfoKey_group_ids info) [] w
             = (Inr (listed_records w p (InfoKey_group_ids info)), w1)
         \<and> main_listing c (InfoKey_work_path info) (listed_records w p (InfoKey_group_ids info)) w1
             = (Inr (), w'))"
proof -
  from assms have ex: "path_exists w (resolve w p)"
    by (auto simp: main_def io_bind_Inr_iff split: if_splits)
  from assms obtain info recs w1 where
    ri: "read_info w (joinpath p (INFO_FILE c)) = Inr info"
    and mg: "main_groups c p (InfoKey_work_path info) wrap (InfoKey_group_ids info) [] w
             = (Inr recs, w1)"
    and ml: "main_listing c (InfoKey_work_path info) recs w1 = (Inr u, w')"
    by (auto simp: main_def Let_def io_bind_Inr_iff split: if_splits)
  from main_groups_Inr[OF mg] have "recs = listed_records w p (InfoKey_group_ids info)" by simp
  with ex ri mg ml show ?thesis by auto
qed

text \<open>What a status pass that ends without an exception has checked.\<close>

lemma main_Inr_checks:
  assumes "main c p wrap w = (Inr u, w')"
    and "read_info w (joinpath p (INFO_FILE c)) = Inr info"
    and "g \<in> set (InfoKey_group_ids info)"
  shows "\<exists>df tasks tw. read_csv w (joinpath p (g @ ''.csv'')) = Inr df
     \<and> read_task_list w (joinpath p (g @ ''.yaml'')) = Inr tasks
     \<and> task_column_width tasks = Inr tw \<and> 0 \<le> wrap
     \<and> (\<forall>i<length df.
          i < length tasks
        \<and> map_of (df ! i) (TableKey_task c) = Some (Text (name (tasks ! i)))
        \<and> (\<forall>skey\<in>set (subtask_keys tasks). \<exists>sp st. map_of (df ! i) skey = Some (Text sp)
              \<and> parse_subtask_status w (joinpath (InfoKey_work_path info) sp)
                    small_thresh_default = Inr st))"
proof -
  from main_Inr[OF assms(1)] assms(2) obtain w1 where
    "main_groups c p (InfoKey_work_path info) wrap (InfoKey_group_ids info) [] w
             = (Inr (listed_records w p (InfoKey_group_ids info)), w1)" by auto
  from main_groups_Inr[OF this] assms(3) obtain recs1 recs2 s w2 where
    "main_group c p (InfoKey_work_path info) wrap g recs1 (w\<lparr>stdout := s\<rparr>) = (Inr recs2, w2)"
    by blast
  from main_group_Inr[OF this] obtain df tasks tw where
    "read_csv w (joinpath p (g @ ''.csv'')) = Inr df"
    "read_task_list w (joinpath p (g @ ''.yaml'')) = Inr tasks"
    "task_column_width tasks = Inr tw" "0 \<le> wrap"
    "\<forall>i<length df.
          i < length tasks
        \<and> map_of (df ! i) (TableKey_task c) = Some (Text (name (tasks ! i)))
        \<and> (\<forall>skey\<in>set (subtask_keys tasks). \<exists>sp st. map_of (df ! i) skey = Some (Text sp)
              \<and> parse_subtask_status w (joinpath (InfoKey_work_path info) sp)
                    small_thresh_default = Inr st)"
    by auto
  then show ?thesis by blast
qed

section \<open>Integrity check, unmodelled combinations and empty cells\<close>

lemma main_rows_append:
  "main_rows c wp tasks skeys tw wrap (xs @ ys) recs w =
     (case main_rows c wp tasks skeys tw wrap xs recs w of
        (Inl e, w1) \<Rightarrow> (Inl e, w1)
      | (Inr recs1, w1) \<Rightarrow> main_rows c wp tasks skeys tw wrap ys recs1 w1)"
proof (induction xs arbitrary: recs w)
  case Nil
  then show ?case by (simp add: io_return_def)
next
  case (Cons x xs)
  show ?case
    by (cases "main_row c wp tasks skeys tw wrap x recs w")
       (auto simp: io_bind_def Cons.IH split: sum.splits)
qed

lemma main_row_mismatch:
  assumes "i < length tasks" and "map_of r (TableKey_task c) = Some v"
    and "v \<noteq> Text (name (tasks ! i))"
  shows "main_row c wp tasks skeys tw wrap (i, r) recs w
           = (Inl (AssertionError (RowMismatch i r (name (tasks ! i)))), w)"
  using assms by (simp add: main_row_def Let_def io_raise_def)

text \<open>
  Claim C7, as the code has it.  The task name of a row is compared with the name of
  the task at the index of the row when the loop over the rows reaches that row, after
  the header and the rows before it were printed: when the rows before it pass, a row
  whose task cell differs from that name raises an assertion failure that names the
  row and the task, in the world the earlier rows left, and no later row is
  processed.  No status pass over a set-up with such a row in any group ends normally.
\<close>

theorem integrity_check_per_row:
  assumes "main_rows c wp tasks skeys tw wrap pre recs w = (Inr recs1, w1)"
    and "i < length tasks" and "map_of r (TableKey_task c) = Some v"
    and "v \<noteq> Text (name (tasks ! i))"
  shows "main_rows c wp tasks skeys tw wrap (pre @ (i, r) # post) recs w
           = (Inl (AssertionError (RowMismatch i r (name (tasks ! i)))), w1)
     \<and> (\<exists>out. stdout w1 = stdout w @ out)
     \<and> (\<forall>p wrap' w0 info g df tasks' j.
            read_info w0 (joinpath p (INFO_FILE c)) = Inr info
          \<and> g \<in> set (InfoKey_group_ids info)
          \<and> read_csv w0 (joinpath p (g @ ''.csv'')) = Inr df
          \<and> read_task_list w0 (joinpath p (g @ ''.yaml'')) = Inr tasks'
          \<and> j < length df
          \<and> map_of (df ! j) (TableKey_task c) \<noteq> Some (Text (name (tasks' ! j)))
          \<longrightarrow> (\<exists>e. fst (main c p wrap' w0) = Inl e))"
proof -
  have a: "main_rows c wp tasks skeys tw wrap (pre @ (i, r) # post) recs w
           = (Inl (AssertionError (RowMismatch i r (name (tasks ! i)))), w1)"
    using assms(1) main_row_mismatch[OF assms(2-4)]
    by (simp add: main_rows_append io_bind_def)
  from prints_only_result[OF prints_only_main_rows assms(1)]
  have b: "\<exists>out. stdout w1 = stdout w @ out" by auto
  have c: "\<exists>e. fst (main c p wrap' w0) = Inl e"
    if h: "read_info w0 (joinpath p (INFO_FILE c)) = Inr info"
      "g \<in> set (InfoKey_group_ids info)"
      "read_csv w0 (joinpath p (g @ ''.csv'')) = Inr df"
      "read_task_list w0 (joinpath p (g @ ''.yaml'')) = Inr tasks'"
      "j < length df"
      "map_of (df ! j) (TableKey_task c) \<noteq> Some (Text (name (tasks' ! j)))"
    for p wrap' w0 info g df tasks' j
  proof (cases "fst (main c p wrap' w0)")
    case (Inl e)
    then show ?thesis by blast
  next
    case (Inr u)
    then have "main c p wrap' w0 = (Inr u, snd (main c p wrap' w0))"
      by (metis prod.collapse)
    from main_Inr_checks[OF this h(1,2)] h(3-6) show ?thesis by auto
  qed
  from a b c show ?thesis by blast
qed

theorem integrity_check_per_row_witness:
  "main_rows demo_externals ''/w'' demo_tasks [''p1'', ''p2''] 1 18
       ([(0, demo_matrix_mismatch ! 0)] @ (1, demo_matrix_mismatch ! 1) # [])
       [] (demo_world ''/w'' demo_matrix_mismatch)
     = (Inl (AssertionError (RowMismatch 1 (demo_matrix_mismatch ! 1) ''B'')),
        snd (main_rows demo_externals ''/w'' demo_tasks [''p1'', ''p2''] 1 18
               [(0, demo_matrix_mismatch ! 0)] [] (demo_world ''/w'' demo_matrix_mismatch)))
   \<and> (\<exists>e. fst (main demo_externals ''/w/subtasks'' 18 (demo_world ''/w'' demo_matrix_mismatch))
             = Inl e)"
proof -
  let ?w = "demo_world ''/w'' demo_matrix_mismatch"
  let ?pre = "main_rows demo_externals ''/w'' demo_tasks [''p1'', ''p2''] 1 18
               [(0, demo_matrix_mismatch ! 0)] [] ?w"
  have "fst ?pre = Inr []" by code_simp
  then have h1: "?pre = (Inr [], snd ?pre)" by (metis prod.collapse)
  have h2: "1 < length demo_tasks" by code_simp
  have h3: "map_of (demo_matrix_mismatch ! 1) (TableKey_task demo_externals) = Some (Text ''C'')"
    by code_simp
  have h4: "Text ''C'' \<noteq> Text (name (demo_tasks ! 1))" by code_simp
  have nm: "name (demo_tasks ! 1) = ''B''" by code_simp
  note t = integrity_check_per_row[OF h1 h2 h3 h4, where post = "[]"]
  have g1: "read_info ?w (joinpath ''/w/subtasks'' (INFO_FILE demo_externals))
              = Inr \<lparr>InfoKey_group_ids = [''g''], InfoKey_work_path = ''/w''\<rparr>" by code_simp
  have g2: "''g'' \<in> set (InfoKey_group_ids \<lparr>InfoKey_group_ids = [''g''], InfoKey_work_path = ''/w''\<rparr>)"
    by simp
  have g3: "read_csv ?w (joinpath ''/w/subtasks'' (''g'' @ ''.csv'')) = Inr demo_matrix_mismatch"
    by code_simp
  have g4: "read_task_list ?w (joinpath ''/w/subtasks'' (''g'' @ ''.yaml'')) = Inr demo_tasks"
    by code_simp
  have g5: "1 < length demo_matrix_mismatch" by code_simp
  have g6: "map_of (demo_matrix_mismatch ! 1) (TableKey_task demo_externals)
              \<noteq> Some (Text (name (demo_tasks ! 1)))" by code_simp
  from t[THEN conjunct2, THEN conjunct2, rule_format,
         where p = "''/w/subtasks''" and ?w0.0 = ?w and g = "''g''" and df = demo_matrix_mismatch
           and tasks' = demo_tasks and j = 1 and wrap' = 18]
       g1 g2 g3 g4 g5 g6
  have "\<exists>e. fst (main demo_externals ''/w/subtasks'' 18 ?w) = Inl e" by blast
  with t[THEN conjunct1] nm show ?thesis by simp
qed

text \<open>
  The check is not made before rendering: in the example whose second row names the
  task \<open>C\<close> where the task list has \<open>B\<close>, the header and the row of \<open>A\<close> are printed
  when the assertion fails.
\<close>

theorem integrity_check_not_eager_counterexample:
  "fst (main demo_externals ''/w/subtasks'' 18 (demo_world ''/w'' demo_matrix_mismatch))
     = Inl (AssertionError (RowMismatch 1
              [(''task'', Text ''C''), (''p1'', Text ''b1''), (''p2'', Text ''b2'')] ''B''))
   \<and> stdout (demo_world ''/w'' demo_matrix_mismatch) = []
   \<and> stdout (snd (main demo_externals ''/w/subtasks'' 18 (demo_world ''/w'' demo_matrix_mismatch)))
     = [''task  p1      p2   '', ''A  OK      OK   '']"
  by code_simp

text \<open>
  Claim C2.  For a nonempty collection of log statuses with at least two distinct
  values, no RUNNING and no ERROR, the result is WARNING exactly when the distinct
  statuses are OK and WARNING; every other such collection makes
  \<open>parse_subtask_status\<close> raise an assertion failure, and a status pass over a set-up
  in which some cell has such logs raises and prints no complete report.
\<close>

theorem parse_subtask_status_warning_or_failure:
  assumes "log_stats = map snd (log_paths_with_statuses w d [])" and "log_stats \<noteq> []"
    and "2 \<le> card (set log_stats)" and "RUNNING \<notin> set log_stats"
    and "ERROR \<notin> set log_stats"
  shows "(parse_subtask_status w d small_thresh_default = Inr WARNING
            \<longleftrightarrow> set log_stats = {OK, WARNING})
     \<and> (set log_stats \<noteq> {OK, WARNING} \<longrightarrow>
          parse_subtask_status w d small_thresh_default = Inl (AssertionError NoMessage)
        \<and> (\<forall>c p wrap info g df tasks i skey sp.
              read_info w (joinpath p (INFO_FILE c)) = Inr info
            \<and> g \<in> set (InfoKey_group_ids info)
            \<and> read_csv w (joinpath p (g @ ''.csv'')) = Inr df
            \<and> read_task_list w (joinpath p (g @ ''.yaml'')) = Inr tasks
            \<and> i < length df \<and> skey \<in> set (subtask_keys tasks)
            \<and> map_of (df ! i) skey = Some (Text sp)
            \<and> joinpath (InfoKey_work_path info) sp = d
            \<longrightarrow> (\<exists>e. fst (main c p wrap w) = Inl e)))"
proof -
  have nd: "\<nexists>x. set log_stats = {x}" using two_distinct_iff[OF assms(2)] assms(3) by simp
  have c0: "count_list log_stats ERROR = 0" using assms(5) by simp
  have a: "(parse_subtask_status w d small_thresh_default = Inr WARNING
            \<longleftrightarrow> set log_stats = {OK, WARNING})
     \<and> (set log_stats \<noteq> {OK, WARNING} \<longrightarrow>
          parse_subtask_status w d small_thresh_default = Inl (AssertionError NoMessage))"
    unfolding parse_subtask_status_cases[OF assms(1,2)] using nd assms(4,5) c0 by auto
  have b: "\<exists>e. fst (main c p wrap w) = Inl e"
    if f: "parse_subtask_status w d small_thresh_default = Inl (AssertionError NoMessage)"
      and h: "read_info w (joinpath p (INFO_FILE c)) = Inr info"
      "g \<in> set (InfoKey_group_ids info)"
      "read_csv w (joinpath p (g @ ''.csv'')) = Inr df"
      "read_task_list w (joinpath p (g @ ''.yaml'')) = Inr tasks"
      "i < length df" "skey \<in> set (subtask_keys tasks)"
      "map_of (df ! i) skey = Some (Text sp)"
      "joinpath (InfoKey_work_path info) sp = d"
    for c p wrap info g df tasks i skey sp
  proof (cases "fst (main c p wrap w)")
    case (Inl e)
    then show ?thesis by blast
  next
    case (Inr u)
    then have "main c p wrap w = (Inr u, snd (main c p wrap w))"
      by (metis prod.collapse)
    from main_Inr_checks[OF this h(1,2)] h(3-8) f show ?thesis by fastforce
  qed
  from a b show ?thesis by blast
qed

theorem parse_subtask_status_warning_or_failure_witness:
  "parse_subtask_status (logs_world (numbered_logs [OK, WARNING, OK])) ''d''
       small_thresh_default = Inr WARNING
   \<and> parse_subtask_status (demo_world ''/w'' demo_matrix_mixed) ''/w/m1''
       small_thresh_default = Inl (AssertionError NoMessage)
   \<and> (\<exists>e. fst (main demo_externals ''/w/subtasks'' 18 (demo_world ''/w'' demo_matrix_mixed))
             = Inl e)"
proof -
  let ?w = "demo_world ''/w'' demo_matrix_mixed"
  have e1: "[OK, WARNING, OK] =
      map snd (log_paths_with_statuses (logs_world (numbered_logs [OK, WARNING, OK])) ''d'' [])"
    by code_simp
  have e2: "[OK, TBD] = map snd (log_paths_with_statuses ?w ''/w/m1'' [])"
    by code_simp
  have c1: "2 \<le> card (set [OK, WARNING, OK])" and c2: "2 \<le> card (set [OK, TBD])"
    by (simp_all add: card_insert_if)
  have s1: "set [OK, WARNING, OK] = {OK, WARNING}" by auto
  have s2: "set [OK, TBD] \<noteq> {OK, WARNING}" by auto
  note t1 = parse_subtask_status_warning_or_failure[OF e1 _ c1, THEN conjunct1]
  note t2 = parse_subtask_status_warning_or_failure[OF e2 _ c2, THEN conjunct2, rule_format, OF _ _ _ s2]
  have a: "parse_subtask_status (logs_world (numbered_logs [OK, WARNING, OK])) ''d''
       small_thresh_default = Inr WARNING"
    using t1 s1 by simp
  have b: "parse_subtask_status ?w ''/w/m1'' small_thresh_default = Inl (AssertionError NoMessage)"
    using t2[THEN conjunct1] by simp
  have g1: "read_info ?w (joinpath ''/w/subtasks'' (INFO_FILE demo_externals))
              = Inr \<lparr>InfoKey_group_ids = [''g''], InfoKey_work_path = ''/w''\<rparr>" by code_simp
  have g2: "''g'' \<in> set (InfoKey_group_ids \<lparr>InfoKey_group_ids = [''g''], InfoKey_work_path = ''/w''\<rparr>)"
    by simp
  have g3: "read_csv ?w (joinpath ''/w/subtasks'' (''g'' @ ''.csv'')) = Inr demo_matrix_mixed"
    by code_simp
  have g4: "read_task_list ?w (joinpath ''/w/subtasks'' (''g'' @ ''.yaml'')) = Inr demo_tasks"
    by code_simp
  have g5: "0 < length demo_matrix_mixed" by code_simp
  have g6: "''p2'' \<in> set (subtask_keys demo_tasks)" by code_simp
  have g7: "map_of (demo_matrix_mixed ! 0) ''p2'' = Some (Text ''m1'')" by code_simp
  have g8: "joinpath (InfoKey_work_path \<lparr>InfoKey_group_ids = [''g''], InfoKey_work_path = ''/w''\<rparr>)
              ''m1'' = ''/w/m1''" by code_simp
  have "\<exists>e. fst (main demo_externals ''/w/subtasks'' 18 ?w) = Inl e"
    using t2[THEN conjunct2, rule_format, where p = "''/w/subtasks''" and c = demo_externals
             and g = "''g''" and df = demo_matrix_mixed and tasks = demo_tasks and i = 0
             and skey = "''p2''" and sp = "''m1''" and wrap = 18]
      g1 g2 g3 g4 g5 g6 g7 g8 by simp
  with a b show ?thesis by blast
qed

lemma parse_subtask_status_no_log_files:
  assumes "filter matches_out_log (listdir w (resolve w d)) = []"
  shows "parse_subtask_status w d th = Inr TBD"
  using assms
  by (simp add: parse_subtask_status_def log_paths_with_statuses_def glob_out_log_def dict_def)

text \<open>
  Claim C4.  A directory without log files, existing or not, has status TBD.  An
  empty cell is not handled: the pass over the example with an empty cell raises
  \<open>TypeError\<close> after the header.
\<close>

theorem blank_cell_raises_type_error:
  "fst (main demo_externals ''/w/subtasks'' 18 (demo_world ''/w'' demo_matrix_blank))
     = Inl TypeError
   \<and> stdout (snd (main demo_externals ''/w/subtasks'' 18 (demo_world ''/w'' demo_matrix_blank)))
     = [''task  p1      p2   '']
   \<and> parse_subtask_status (demo_world ''/w'' demo_matrix_blank) ''/w/b2'' small_thresh_default
     = Inr TBD
   \<and> parse_subtask_status (demo_world ''/w'' demo_matrix_blank) ''/w/nowhere''
       small_thresh_default = Inr TBD"
  by code_simp

section \<open>The closing listing\<close>

lemma print_lines_effect: "print_lines ls w = (Inr (), w\<lparr>stdout := stdout w @ ls\<rparr>)"
  by (induction ls arbitrary: w) (simp_all add: io_return_def io_bind_def print_line_def)

lemma py_max_Max:
  assumes "xs \<noteq> []"
  shows "py_max xs = Inr (Max (set xs))"
proof (cases xs)
  case Nil
  with assms show ?thesis by simp
next
  case (Cons a list)
  show ?thesis using Max.set_eq_fold[of a list] unfolding Cons by simp
qed

lemma main_listing_effect:
  "main_listing c wp recs w =
     (Inr (), w\<lparr>stdout := stdout w @
        (if recs = [] then [[]]
         else (''Non-OK log files in '' @ wp @ '':'')
              # map (format_record c (Max (set (map (\<lambda>r. length (fst r)) recs)))
                       (Max (set (map (\<lambda>r. length (fst (snd r))) recs)))
                       (Max (set (map (\<lambda>r. length (fst (snd (snd r)))) recs)))) recs
              @ [[]])\<rparr>)"
  by (simp add: main_listing_def io_bind_def io_read_def io_return_def print_line_def
        py_max_Max print_lines_effect)

lemma fmt_left_length: "length s \<le> wd \<Longrightarrow> length (fmt_left wd s) = wd"
  by (simp add: fmt_left_def)

lemma dict_aux_distinct:
  "distinct (map fst al) \<Longrightarrow> distinct (map fst (fold (\<lambda>(k, v) d. AList.update k v d) ps al))"
  by (induction ps arbitrary: al) (auto simp: distinct_update)

lemma dict_distinct: "distinct (map fst (dict ps))"
  by (simp add: dict_def dict_aux_distinct)

lemma dict_aux_map_of:
  "map_of (fold (\<lambda>(k, v) d. AList.update k v d) ps al) = map_of al ++ map_of (rev ps)"
  by (induction ps arbitrary: al) (auto simp: update_conv' fun_eq_iff map_add_def split: option.splits)

lemma dict_map_of: "map_of (dict ps) = map_of (rev ps)"
  by (simp add: dict_def dict_aux_map_of)

lemma map_of_rev_zip_map:
  "map_of (rev (zip ks (map f ks))) k = (if k \<in> set ks then Some (f k) else None)"
proof (induction ks rule: rev_induct)
  case Nil
  then show ?case by simp
next
  case (snoc x xs)
  then show ?case by (simp add: zip_append)
qed

lemma dict_zip_set: "set (dict (zip ks (map f ks))) = {(k, v). k \<in> set ks \<and> v = f k}"
proof -
  have "(k, v) \<in> set (dict (zip ks (map f ks))) \<longleftrightarrow> k \<in> set ks \<and> v = f k" for k v
  proof -
    have "(k, v) \<in> set (dict (zip ks (map f ks)))
            \<longleftrightarrow> map_of (dict (zip ks (map f ks))) k = Some v"
      by (simp add: map_of_eq_Some_iff[OF dict_distinct])
    also have "\<dots> \<longleftrightarrow> k \<in> set ks \<and> v = f k"
      by (auto simp: dict_map_of map_of_rev_zip_map)
    finally show ?thesis .
  qed
  then show ?thesis by auto
qed

lemma log_paths_with_statuses_distinct: "distinct (map fst (log_paths_with_statuses w d ex))"
  by (simp add: log_paths_with_statuses_def Let_def distinct_map_filter dict_distinct)

lemma log_paths_with_statuses_set:
  "set (log_paths_with_statuses w d ex) =
     {(lp, s). lp \<in> set (glob_out_log w d) \<and> s = parse_log_status w lp \<and> s \<notin> set ex}"
  by (auto simp: log_paths_with_statuses_def Let_def dict_zip_set)

text \<open>
  Claim C5.  The closing listing is to name, by its absolute path, every log file of
  the run whose status is not OK.  The code looks the logs of a cell up under the path
  of the cell as the matrix has it, not under the work path as the table does: in the
  example, a pass run from \<open>/tmp\<close> shows \<open>OK_1E\<close> for the cell \<open>b1\<close> of task \<open>B\<close> and
  lists nothing, although \<open>/w/b1/out3.log\<close> has status ERROR; a pass run from the
  work path \<open>/w\<close> lists that log under the relative path \<open>b1/out3.log\<close>.
\<close>

theorem closing_listing_globs_raw_cell:
  "stdout (snd (main demo_externals ''/w/subtasks'' 18 (demo_world ''/tmp'' demo_matrix)))
     = [''task  p1      p2   '', ''A  OK      OK   '', ''B OK_1E    TBD  '', [], []]
   \<and> parse_log_status (demo_world ''/tmp'' demo_matrix) ''/w/b1/out3.log'' = ERROR
   \<and> stdout (snd (main demo_externals ''/w/subtasks'' 18 (demo_world ''/w'' demo_matrix)))
     = [''task  p1      p2   '', ''A  OK      OK   '', ''B OK_1E    TBD  '', [],
        ''Non-OK log files in /w:'', ''B p1 b1/out3.log ERROR'', []]
   \<and> \<not> is_absolute ''b1/out3.log''
   \<and> joinpath ''/w'' ''b1/out3.log'' = ''/w/b1/out3.log''"
  by code_simp

section \<open>What the report depends on\<close>

lemma same_inputs_stdout [simp]:
  "same_inputs c p (w1\<lparr>stdout := s1\<rparr>) (w2\<lparr>stdout := s2\<rparr>) = same_inputs c p w1 w2"
  by (simp add: same_inputs_def)

lemma same_inputs_resolve: "same_inputs c p w1 w2 \<Longrightarrow> resolve w1 q = resolve w2 q"
  by (simp add: same_inputs_def resolve_def)

lemma same_inputs_glob: "same_inputs c p w1 w2 \<Longrightarrow> glob_out_log w1 q = glob_out_log w2 q"
  by (simp add: glob_out_log_def same_inputs_resolve[of c p w1 w2]) (simp add: same_inputs_def)

lemma same_inputs_parse_log_status:
  "same_inputs c p w1 w2 \<Longrightarrow> parse_log_status w1 q = parse_log_status w2 q"
  by (simp add: parse_log_status_def same_inputs_resolve[of c p w1 w2]) (simp add: same_inputs_def)

lemma same_inputs_log_paths_with_statuses:
  assumes "same_inputs c p w1 w2"
  shows "log_paths_with_statuses w1 q ex = log_paths_with_statuses w2 q ex"
  by (simp add: log_paths_with_statuses_def same_inputs_glob[OF assms]
        same_inputs_parse_log_status[OF assms] cong: map_cong)

lemma same_inputs_parse_subtask_status:
  assumes "same_inputs c p w1 w2"
  shows "parse_subtask_status w1 q th = parse_subtask_status w2 q th"
  by (simp add: parse_subtask_status_def same_inputs_log_paths_with_statuses[OF assms])

lemma same_inputs_cell_records:
  assumes "same_inputs c p w1 w2"
  shows "cell_records w1 nm kp = cell_records w2 nm kp"
  by (simp add: cell_records_def same_inputs_log_paths_with_statuses[OF assms]
        split: prod.splits sum.splits)

lemma same_reportI:
  "(\<And>w1 w2. same_inputs c p w1 w2 \<Longrightarrow>
        \<exists>r out. m w1 = (r, w1\<lparr>stdout := stdout w1 @ out\<rparr>)
               \<and> m w2 = (r, w2\<lparr>stdout := stdout w2 @ out\<rparr>)) \<Longrightarrow> same_report c p m"
  by (simp add: same_report_def)

lemma same_reportD:
  "same_report c p m \<Longrightarrow> same_inputs c p w1 w2 \<Longrightarrow>
     \<exists>r out. m w1 = (r, w1\<lparr>stdout := stdout w1 @ out\<rparr>)
            \<and> m w2 = (r, w2\<lparr>stdout := stdout w2 @ out\<rparr>)"
  by (simp add: same_report_def)

lemma same_report_return [simp]: "same_report c p (io_return x)"
  by (rule same_reportI) (simp add: io_return_def, intro exI[of _ "[]"], simp)

lemma same_report_raise [simp]: "same_report c p (io_raise e)"
  by (rule same_reportI) (simp add: io_raise_def, intro exI[of _ "[]"], simp)

lemma same_report_print_line [simp]: "same_report c p (print_line l)"
  by (rule same_reportI) (simp add: print_line_def, intro exI[of _ "[l]"], simp)

lemma same_report_read:
  assumes "\<And>w1 w2. same_inputs c p w1 w2 \<Longrightarrow> f w1 = f w2"
  shows "same_report c p (io_read f)"
proof (rule same_reportI)
  fix w1 w2 assume "same_inputs c p w1 w2"
  from assms[OF this] have "io_read f w1 = (f w1, w1\<lparr>stdout := stdout w1 @ []\<rparr>)
      \<and> io_read f w2 = (f w1, w2\<lparr>stdout := stdout w2 @ []\<rparr>)"
    by (simp add: io_read_def)
  then show "\<exists>r out. io_read f w1 = (r, w1\<lparr>stdout := stdout w1 @ out\<rparr>)
               \<and> io_read f w2 = (r, w2\<lparr>stdout := stdout w2 @ out\<rparr>)" by blast
qed

lemma same_report_bind:
  assumes m: "same_report c p m" and f: "\<And>x. same_report c p (f x)"
  shows "same_report c p (io_bind m f)"
proof (rule same_reportI)
  fix w1 w2 assume s: "same_inputs c p w1 w2"
  from same_reportD[OF m s] obtain r out where
    h1: "m w1 = (r, w1\<lparr>stdout := stdout w1 @ out\<rparr>)"
    and h2: "m w2 = (r, w2\<lparr>stdout := stdout w2 @ out\<rparr>)" by blast
  show "\<exists>r out. io_bind m f w1 = (r, w1\<lparr>stdout := stdout w1 @ out\<rparr>)
               \<and> io_bind m f w2 = (r, w2\<lparr>stdout := stdout w2 @ out\<rparr>)"
  proof (cases r)
    case (Inl e)
    with h1 h2 show ?thesis by (auto simp: io_bind_def)
  next
    case (Inr x)
    have s': "same_inputs c p (w1\<lparr>stdout := stdout w1 @ out\<rparr>) (w2\<lparr>stdout := stdout w2 @ out\<rparr>)"
      using s by simp
    from same_reportD[OF f[of x] s'] obtain r' out' where
      "f x (w1\<lparr>stdout := stdout w1 @ out\<rparr>) = (r', w1\<lparr>stdout := stdout w1 @ out @ out'\<rparr>)"
      "f x (w2\<lparr>stdout := stdout w2 @ out\<rparr>) = (r', w2\<lparr>stdout := stdout w2 @ out @ out'\<rparr>)"
      by auto
    with h1 h2 Inr have "io_bind m f w1 = (r', w1\<lparr>stdout := stdout w1 @ (out @ out')\<rparr>)
        \<and> io_bind m f w2 = (r', w2\<lparr>stdout := stdout w2 @ (out @ out')\<rparr>)"
      by (simp add: io_bind_def)
    then show ?thesis by blast
  qed
qed

lemma same_report_print_lines [simp]: "same_report c p (print_lines ls)"
  by (induction ls) (simp_all add: same_report_bind)

lemma same_report_print_long_row_guide [simp]:
  "same_report c p (print_long_row_guide c' lw n wrap ch)"
  by (simp add: print_long_row_guide_def Let_def)

lemma same_report_print_chunks [simp]: "same_report c p (print_chunks c' label chunks lw)"
  by (induction chunks arbitrary: label) (simp_all add: same_report_bind)

lemma same_report_print_task_row [simp]: "same_report c p (print_task_row c' label vals lw wrap)"
  by (simp add: print_task_row_def same_report_bind)

lemma same_inputs_statuses:
  assumes "same_inputs c p w1 w2"
  shows "map_result (\<lambda>q. parse_subtask_status w1 q th) aps
       = map_result (\<lambda>q. parse_subtask_status w2 q th) aps"
proof -
  have "(\<lambda>q. parse_subtask_status w1 q th) = (\<lambda>q. parse_subtask_status w2 q th)"
    by (simp add: fun_eq_iff same_inputs_parse_subtask_status[OF assms])
  then show ?thesis by simp
qed

lemma same_inputs_records:
  assumes "same_inputs c p w1 w2"
  shows "map_result (cell_records w1 nm) kps = map_result (cell_records w2 nm) kps"
proof -
  have "cell_records w1 nm = cell_records w2 nm"
    by (simp add: fun_eq_iff same_inputs_cell_records[OF assms])
  then show ?thesis by simp
qed

lemma same_report_main_row [simp]:
  "same_report c p (main_row c' wp tasks skeys tw wrap kr recs)"
  by (cases kr)
     (auto simp: main_row_def Let_def
           intro!: same_report_bind same_report_read same_inputs_statuses same_inputs_records
           split: option.splits)

lemma same_report_main_rows [simp]:
  "same_report c p (main_rows c' wp tasks skeys tw wrap rows recs)"
  by (induction rows arbitrary: recs) (simp_all add: same_report_bind)

lemma same_report_main_group [simp]: "same_report c p (main_group c' p wp wrap g recs)"
  by (auto simp: main_group_def Let_def same_inputs_def
        intro!: same_report_bind same_report_read)

lemma same_report_main_groups [simp]: "same_report c p (main_groups c' p wp wrap gs recs)"
  by (induction gs arbitrary: recs) (simp_all add: same_report_bind)

lemma same_report_main_listing [simp]: "same_report c p (main_listing c' wp recs)"
  by (auto simp: main_listing_def intro!: same_report_bind same_report_read)

lemma same_report_main: "same_report c p (main c p wrap)"
  by (auto simp: main_def Let_def same_inputs_def intro!: same_report_bind same_report_read)

lemma same_inputs_refl: "same_inputs c p w w"
  by (simp add: same_inputs_def)

lemma parse_subtask_status_local:
  assumes "filter matches_out_log (listdir w1 (resolve w1 q))
             = filter matches_out_log (listdir w2 (resolve w2 q))"
    and "\<forall>lp\<in>set (glob_out_log w1 q). log_status w1 (resolve w1 lp) = log_status w2 (resolve w2 lp)"
  shows "parse_subtask_status w1 q th = parse_subtask_status w2 q th"
proof -
  have g: "glob_out_log w1 q = glob_out_log w2 q" using assms(1) by (simp add: glob_out_log_def)
  have m: "map (parse_log_status w1) (glob_out_log w2 q)
      = map (parse_log_status w2) (glob_out_log w2 q)"
    using assms(2) unfolding g by (simp add: parse_log_status_def)
  have "log_paths_with_statuses w1 q [] = log_paths_with_statuses w2 q []"
    by (simp add: log_paths_with_statuses_def Let_def g m)
  then show ?thesis by (simp add: parse_subtask_status_def)
qed

text \<open>
  Claim C8, as the code has it.  On two worlds that give it the same inputs, in
  particular the same working directory, the status pass ends the same way and prints
  the same lines; so a second pass after a first one, in the same working directory
  over the unchanged set-up, repeats the report of the first.  The result of
  \<open>parse_subtask_status\<close> is fixed by the \<open>out*.log\<close> entries of the directory its
  path resolves to, from the working directory when the path is relative, and by the
  statuses of those logs.
\<close>

theorem status_pass_depends_on_inputs:
  "(same_inputs c p w1 w2 \<longrightarrow>
      (\<exists>r out. main c p wrap w1 = (r, w1\<lparr>stdout := stdout w1 @ out\<rparr>)
              \<and> main c p wrap w2 = (r, w2\<lparr>stdout := stdout w2 @ out\<rparr>)))
   \<and> (\<exists>r out. main c p wrap w1 = (r, w1\<lparr>stdout := stdout w1 @ out\<rparr>)
            \<and> main c p wrap (w1\<lparr>stdout := stdout w1 @ out\<rparr>)
                = (r, w1\<lparr>stdout := (stdout w1 @ out) @ out\<rparr>))
   \<and> (filter matches_out_log (listdir w1 (resolve w1 q))
         = filter matches_out_log (listdir w2 (resolve w2 q))
       \<and> (\<forall>lp\<in>set (glob_out_log w1 q).
             log_status w1 (resolve w1 lp) = log_status w2 (resolve w2 lp))
       \<longrightarrow> parse_subtask_status w1 q th = parse_subtask_status w2 q th)"
proof -
  have a: "\<exists>r out. main c p wrap v1 = (r, v1\<lparr>stdout := stdout v1 @ out\<rparr>)
              \<and> main c p wrap v2 = (r, v2\<lparr>stdout := stdout v2 @ out\<rparr>)"
    if "same_inputs c p v1 v2" for v1 v2
    using same_reportD[OF same_report_main that] .
  have b: "\<exists>r out. main c p wrap w1 = (r, w1\<lparr>stdout := stdout w1 @ out\<rparr>)
            \<and> main c p wrap (w1\<lparr>stdout := stdout w1 @ out\<rparr>)
                = (r, w1\<lparr>stdout := (stdout w1 @ out) @ out\<rparr>)"
  proof -
    from a[OF same_inputs_refl, of w1] obtain r out where
      h: "main c p wrap w1 = (r, w1\<lparr>stdout := stdout w1 @ out\<rparr>)" by blast
    have "same_inputs c p w1 (w1\<lparr>stdout := stdout w1 @ out\<rparr>)"
      by (simp add: same_inputs_def)
    from a[OF this] obtain r' out' where
      h1: "main c p wrap w1 = (r', w1\<lparr>stdout := stdout w1 @ out'\<rparr>)"
      and h2: "main c p wrap (w1\<lparr>stdout := stdout w1 @ out\<rparr>)
                = (r', w1\<lparr>stdout := (stdout w1 @ out) @ out'\<rparr>)"
      by auto
    from h h1 have "r' = r"
      and "stdout (w1\<lparr>stdout := stdout w1 @ out'\<rparr>) = stdout (w1\<lparr>stdout := stdout w1 @ out\<rparr>)"
      by simp_all
    then have "r' = r" "out' = out" by simp_all
    with h h2 show ?thesis by blast
  qed
  from a b parse_subtask_status_local show ?thesis by blast
qed

theorem status_pass_depends_on_inputs_witness:
  "fst (main demo_externals ''/w/subtasks'' 18 demo_world_noisy) = Inr ()
   \<and> stdout (snd (main demo_externals ''/w/subtasks'' 18 demo_world_noisy))
       = [''earlier output'', ''task  p1      p2   '', ''A  OK      OK   '',
          ''B OK_1E    TBD  '', [], ''Non-OK log files in /w:'', ''B p1 b1/out3.log ERROR'', []]
   \<and> parse_subtask_status demo_world_noisy ''b1'' small_thresh_default = Inr OK_1E"
proof -
  let ?w1 = "demo_world ''/w'' demo_matrix"
  let ?w2 = "demo_world_noisy"
  let ?L = "[''task  p1      p2   '', ''A  OK      OK   '',
          ''B OK_1E    TBD  '', [], ''Non-OK log files in /w:'', ''B p1 b1/out3.log ERROR'', []]"
  have n1: "\<not> matches_out_log ''README''" and n2: "\<not> matches_out_log ''run.sh''"
    by code_simp+
  have s1: "cwd ?w1 = cwd ?w2" by (simp add: demo_world_noisy_def)
  have s2: "path_exists ?w1 (resolve ?w1 ''/w/subtasks'')
              = path_exists ?w2 (resolve ?w2 ''/w/subtasks'')" by code_simp
  have s3: "read_info ?w1 (joinpath ''/w/subtasks'' (INFO_FILE demo_externals))
              = read_info ?w2 (joinpath ''/w/subtasks'' (INFO_FILE demo_externals))"
    by code_simp
  have s4: "read_csv ?w1 x = read_csv ?w2 x" for x
    by (simp add: read_csv_def resolve_def demo_world_noisy_def)
  have s5: "read_task_list ?w1 x = read_task_list ?w2 x" for x
    by (simp add: read_task_list_def resolve_def demo_world_noisy_def)
  have s6: "filter matches_out_log (listdir ?w1 d) = filter matches_out_log (listdir ?w2 d)"
    for d
    using n1 n2 by (simp add: demo_world_noisy_def)
  have s7: "log_status ?w1 = log_status ?w2" by (simp add: demo_world_noisy_def)
  have si: "same_inputs demo_externals ''/w/subtasks'' ?w1 ?w2"
    unfolding same_inputs_def using s1 s2 s3 s4 s5 s6 s7 by blast
  note t = status_pass_depends_on_inputs[where c = demo_externals and p = "''/w/subtasks''"
      and ?w1.0 = ?w1 and ?w2.0 = ?w2 and wrap = 18 and q = "''b1''"
      and th = small_thresh_default]
  from t[THEN conjunct1, rule_format, OF si] obtain r out where
    m1: "main demo_externals ''/w/subtasks'' 18 ?w1 = (r, ?w1\<lparr>stdout := stdout ?w1 @ out\<rparr>)"
    and m2: "main demo_externals ''/w/subtasks'' 18 ?w2 = (r, ?w2\<lparr>stdout := stdout ?w2 @ out\<rparr>)"
    by blast
  have e1: "fst (main demo_externals ''/w/subtasks'' 18 ?w1) = Inr ()" by code_simp
  have e2: "stdout (snd (main demo_externals ''/w/subtasks'' 18 ?w1)) = ?L" by code_simp
  have e3: "stdout ?w1 = []" by (simp add: demo_world_def)
  have e4: "stdout ?w2 = [''earlier output'']" by (simp add: demo_world_noisy_def)
  from m1 e1 have r: "r = Inr ()" by simp
  from m1 e2 e3 have out: "out = ?L" by simp
  have a: "fst (main demo_externals ''/w/subtasks'' 18 ?w2) = Inr ()
     \<and> stdout (snd (main demo_externals ''/w/subtasks'' 18 ?w2)) = ''earlier output'' # ?L"
    using m2 r out e4 by simp
  have h1: "filter matches_out_log (listdir ?w1 (resolve ?w1 ''b1''))
         = filter matches_out_log (listdir ?w2 (resolve ?w2 ''b1''))" 
    using s6[of "resolve ?w1 ''b1''"] by (simp add: resolve_def s1)
  have h2: "\<forall>lp\<in>set (glob_out_log ?w1 ''b1'').
             log_status ?w1 (resolve ?w1 lp) = log_status ?w2 (resolve ?w2 lp)"
    by (simp add: s7 resolve_def s1)
  have p1: "parse_subtask_status ?w1 ''b1'' small_thresh_default = Inr OK_1E" by code_simp
  from t[THEN conjunct2, THEN conjunct2, rule_format, OF conjI, OF h1 h2] p1
  have b: "parse_subtask_status ?w2 ''b1'' small_thresh_default = Inr OK_1E" by simp
  from a b show ?thesis by simp
qed

text \<open>
  The result does not depend on the content of the disk alone: with the same content
  and another working directory, the relative path \<open>b1\<close> has another status.
\<close>

theorem status_pass_cwd_counterexample:
  "parse_subtask_status (demo_world ''/w'' demo_matrix) ''b1'' small_thresh_default = Inr OK_1E
   \<and> parse_subtask_status (demo_world ''/tmp'' demo_matrix) ''b1'' small_thresh_default = Inr TBD
   \<and> demo_world ''/tmp'' demo_matrix = (demo_world ''/w'' demo_matrix)\<lparr>cwd := ''/tmp''\<rparr>"
proof -
  have "parse_subtask_status (demo_world ''/w'' demo_matrix) ''b1'' small_thresh_default
          = Inr OK_1E" by code_simp
  moreover have "parse_subtask_status (demo_world ''/tmp'' demo_matrix) ''b1''
          small_thresh_default = Inr TBD" by code_simp
  moreover have "demo_world ''/tmp'' demo_matrix
          = (demo_world ''/w'' demo_matrix)\<lparr>cwd := ''/tmp''\<rparr>"
    by (simp add: demo_world_def)
  ultimately show ?thesis by blast
qed

end
